theory Spec2Isabelle
  imports Complex_Main
begin

section \<open>Pixel canvas: the grid, the history and the event handlers\<close>

text \<open>
  A shallow embedding of \<^verbatim>\<open>src/pixel-canvas.tsx\<close>. The component keeps its state
  in React hooks; here the hooks are the fields of one record and every handler is a
  function from the state it was rendered with to the state its setter calls leave
  behind. Handlers are run one at a time, each on the state the previous one produced.

  JavaScript arrays and objects are values in the state. The source never assigns to
  an element of an existing array or to a property of an existing object (it builds
  new arrays with \<^verbatim>\<open>map\<close> and \<^verbatim>\<open>slice\<close>, and \<^verbatim>\<open>push\<close>es only onto the fresh array
  that \<^verbatim>\<open>slice\<close> returned), so a deep copy \<^verbatim>\<open>JSON.parse(JSON.stringify(x))\<close> of a grid
  of \<^verbatim>\<open>{color: string}\<close> objects is the same value. For the paint this is not taken
  for granted: it is written once more over a store of objects further down.
\<close>

subsection \<open>Data\<close>

definition GRID_SIZE :: nat where
  "GRID_SIZE = 32"

record Pixel =
  color :: string

type_synonym CanvasState = "Pixel list list"

datatype ExportFormat = png | jpeg

record State =
  canvas :: CanvasState
  selectedColor :: string
  isDrawing :: bool
  history :: "CanvasState list"
  historyIndex :: int
  exportFormat :: ExportFormat
  exportScale :: nat

text \<open>\<^verbatim>\<open>JSON.parse\<close> of \<^verbatim>\<open>undefined\<close> throws; no other statement of the handlers can.\<close>

datatype error = SyntaxError

text \<open>The grid every cell of which is white (lines 36-42 and 125-131).\<close>

definition blankCanvas :: CanvasState where
  "blankCanvas = replicate GRID_SIZE (replicate GRID_SIZE \<lparr>color = ''#FFFFFF''\<rparr>)"

text \<open>The values the hooks are created with (lines 35-49).\<close>

definition initialState :: State where
  "initialState =
     \<lparr>canvas = blankCanvas, selectedColor = ''#000000'', isDrawing = False,
      history = [], historyIndex = - 1, exportFormat = png, exportScale = 10\<rparr>"

text \<open>The effect that runs once after the first render (lines 52-55).\<close>

definition mountEffect :: "State \<Rightarrow> State" where
  "mountEffect st = st\<lparr>history := [canvas st], historyIndex := 0\<rparr>"

subsection \<open>Array helpers\<close>

text \<open>
  \<^verbatim>\<open>xs.map((x, i) => f(x, i))\<close> and \<^verbatim>\<open>xs.forEach((x, i) => f(x, i))\<close>: the callback
  receives the element and its index. An index is a natural number; the arguments of
  the handlers are JavaScript numbers, here integers, and \<^verbatim>\<open>===\<close> compares the two
  as integers.
\<close>

fun map_from :: "nat \<Rightarrow> ('a \<Rightarrow> nat \<Rightarrow> 'b) \<Rightarrow> 'a list \<Rightarrow> 'b list" where
  "map_from i f [] = []"
| "map_from i f (x # xs) = f x i # map_from (Suc i) f xs"

definition map_indexed :: "('a \<Rightarrow> nat \<Rightarrow> 'b) \<Rightarrow> 'a list \<Rightarrow> 'b list" where
  "map_indexed f xs = map_from 0 f xs"

fun forEach_from :: "nat \<Rightarrow> ('s \<Rightarrow> 'a \<Rightarrow> nat \<Rightarrow> 's) \<Rightarrow> 's \<Rightarrow> 'a list \<Rightarrow> 's" where
  "forEach_from i f s [] = s"
| "forEach_from i f s (x # xs) = forEach_from (Suc i) f (f s x i) xs"

definition forEach :: "('s \<Rightarrow> 'a \<Rightarrow> nat \<Rightarrow> 's) \<Rightarrow> 's \<Rightarrow> 'a list \<Rightarrow> 's" where
  "forEach f s xs = forEach_from 0 f s xs"

text \<open>
  \<^verbatim>\<open>xs.slice(0, e)\<close>: a negative end counts from the end of the array, and the
  result is clipped to the array.
\<close>

definition slice0 :: "'a list \<Rightarrow> int \<Rightarrow> 'a list" where
  "slice0 xs e = (if e < 0 then take (nat (int (length xs) + e)) xs else take (nat e) xs)"

text \<open>\<^verbatim>\<open>xs[i]\<close>: \<^verbatim>\<open>undefined\<close> (here \<open>None\<close>) outside the array.\<close>

definition at_index :: "'a list \<Rightarrow> int \<Rightarrow> 'a option" where
  "at_index xs i = (if 0 \<le> i \<and> i < int (length xs) then Some (xs ! nat i) else None)"

subsection \<open>History (lines 57-81)\<close>

definition saveToHistory :: "State \<Rightarrow> CanvasState \<Rightarrow> State" where
  "saveToHistory st newCanvas =
     (let newHistory = slice0 (history st) (historyIndex st + 1) @ [newCanvas]
      in st\<lparr>history := newHistory, historyIndex := int (length newHistory) - 1\<rparr>)"

definition undo :: "State \<Rightarrow> error + State" where
  "undo st =
     (if historyIndex st > 0 then
        (let newIndex = historyIndex st - 1
         in case at_index (history st) newIndex of
              None \<Rightarrow> Inl SyntaxError
            | Some g \<Rightarrow> Inr (st\<lparr>historyIndex := newIndex, canvas := g\<rparr>))
      else Inr st)"

definition redo :: "State \<Rightarrow> error + State" where
  "redo st =
     (if historyIndex st < int (length (history st)) - 1 then
        (let newIndex = historyIndex st + 1
         in case at_index (history st) newIndex of
              None \<Rightarrow> Inl SyntaxError
            | Some g \<Rightarrow> Inr (st\<lparr>historyIndex := newIndex, canvas := g\<rparr>))
      else Inr st)"

text \<open>
  The \<^verbatim>\<open>disabled\<close> attributes of the two buttons (lines 215 and 221): the only
  place where the component shows that there is nothing to undo or to redo.
\<close>

definition undoDisabled :: "State \<Rightarrow> bool" where
  "undoDisabled st = (historyIndex st \<le> 0)"

definition redoDisabled :: "State \<Rightarrow> bool" where
  "redoDisabled st = (historyIndex st \<ge> int (length (history st)) - 1)"

subsection \<open>Painting and clearing (lines 101-134)\<close>

text \<open>
  The \<^verbatim>\<open>map\<close> expression of \<^verbatim>\<open>drawPixel\<close> (lines 102-104), under the name the
  specification gives the operation. It has no bounds check: where no index matches,
  every pixel is kept.
\<close>

definition setCell :: "CanvasState \<Rightarrow> int \<Rightarrow> int \<Rightarrow> string \<Rightarrow> CanvasState" where
  "setCell cv row col c =
     map_indexed (\<lambda>r rowIndex.
       map_indexed (\<lambda>pixel colIndex.
         if int rowIndex = row \<and> int colIndex = col then \<lparr>color = c\<rparr> else pixel) r) cv"

definition drawPixel :: "State \<Rightarrow> int \<Rightarrow> int \<Rightarrow> State" where
  "drawPixel st row col =
     (let newCanvas = setCell (canvas st) row col (selectedColor st)
      in saveToHistory (st\<lparr>canvas := newCanvas\<rparr>) newCanvas)"

definition handleMouseDown :: "State \<Rightarrow> int \<Rightarrow> int \<Rightarrow> State" where
  "handleMouseDown st row col = drawPixel (st\<lparr>isDrawing := True\<rparr>) row col"

definition handleMouseEnter :: "State \<Rightarrow> int \<Rightarrow> int \<Rightarrow> State" where
  "handleMouseEnter st row col = (if isDrawing st then drawPixel st row col else st)"

definition handleMouseUp :: "State \<Rightarrow> State" where
  "handleMouseUp st = st\<lparr>isDrawing := False\<rparr>"

definition clearCanvas :: "State \<Rightarrow> State" where
  "clearCanvas st =
     (let newCanvas = blankCanvas
      in saveToHistory (st\<lparr>canvas := newCanvas\<rparr>) newCanvas)"

text \<open>
  Reading one cell. The source has no function for it: cells are read by position
  when the grid is traversed (lines 151-155 and 191-205). Outside the grid there is
  nothing to read.
\<close>

definition getCell :: "CanvasState \<Rightarrow> int \<Rightarrow> int \<Rightarrow> string option" where
  "getCell cv row col =
     (case at_index cv row of
        None \<Rightarrow> None
      | Some r \<Rightarrow> map_option color (at_index r col))"

subsection \<open>Events and reachable states\<close>

text \<open>
  One constructor for each handler that touches the grid or the history. The colour
  controls (hue, brightness, presets, hex field) only write \<open>selectedColor\<close>, and the
  export controls only their own two fields; each group is one event that may write
  any value, and a mouse event may carry any two integers, although the component only
  sends the indices of a rendered cell. This allows at least every state the
  component can reach. The first state is the mounted one: React runs the effect
  before it handles an event.
\<close>

datatype Event =
    MouseDown int int
  | MouseEnter int int
  | MouseUp
  | ClearCanvas
  | Undo
  | Redo
  | SetSelectedColor string
  | SetExportFormat ExportFormat
  | SetExportScale nat

fun handleEvent :: "State \<Rightarrow> Event \<Rightarrow> error + State" where
  "handleEvent st (MouseDown row col) = Inr (handleMouseDown st row col)"
| "handleEvent st (MouseEnter row col) = Inr (handleMouseEnter st row col)"
| "handleEvent st MouseUp = Inr (handleMouseUp st)"
| "handleEvent st ClearCanvas = Inr (clearCanvas st)"
| "handleEvent st Undo = undo st"
| "handleEvent st Redo = redo st"
| "handleEvent st (SetSelectedColor c) = Inr (st\<lparr>selectedColor := c\<rparr>)"
| "handleEvent st (SetExportFormat f) = Inr (st\<lparr>exportFormat := f\<rparr>)"
| "handleEvent st (SetExportScale n) = Inr (st\<lparr>exportScale := n\<rparr>)"

inductive reachable :: "State \<Rightarrow> bool" where
  mounted: "reachable (mountEffect initialState)"
| step: "reachable st \<Longrightarrow> handleEvent st e = Inr st' \<Longrightarrow> reachable st'"

text \<open>What the specification asks of a history: a cursor inside the sequence, at the displayed grid.\<close>

definition history_ok :: "State \<Rightarrow> bool" where
  "history_ok st =
     (0 \<le> historyIndex st \<and> historyIndex st < int (length (history st)) \<and>
      at_index (history st) (historyIndex st) = Some (canvas st))"

subsection \<open>Numbers and strings of the colour controls\<close>

text \<open>
  JavaScript numbers are IEEE-754 doubles. The colour arithmetic is written here over
  the rationals: it is what the source computes wherever no operation rounds. The
  theorems below evaluate it only at hues 0, 300, 360 and -60 and at channels 0 and
  255, where every intermediate value is an integer or a half, which a double holds
  exactly. \<open>NaN\<close> is \<open>None\<close>.
\<close>

text \<open>\<^verbatim>\<open>Math.round\<close>: the nearest integer, a half going up.\<close>

definition Math_round :: "rat \<Rightarrow> int" where
  "Math_round x = \<lfloor>x + 1 / 2\<rfloor>"

text \<open>
  The operator \<^verbatim>\<open>%\<close>: the remainder of the division truncated towards zero, so
  that the result has the sign of the dividend. Both uses have a non-zero constant
  divisor.
\<close>

definition truncate_rat :: "rat \<Rightarrow> int" where
  "truncate_rat q = (if 0 \<le> q then \<lfloor>q\<rfloor> else \<lceil>q\<rceil>)"

definition js_rem :: "rat \<Rightarrow> rat \<Rightarrow> rat" where
  "js_rem a b = a - b * of_int (truncate_rat (a / b))"

text \<open>
  \<^verbatim>\<open>Number.parseInt(s, 16)\<close>: white space is skipped, then a sign and a \<^verbatim>\<open>0x\<close>
  prefix are read, then the longest run of hexadecimal digits; without a digit the
  result is \<open>NaN\<close>. Strings are sequences of bytes here; only the ASCII white space
  is recognised.
\<close>

definition hexDigitValue :: "char \<Rightarrow> nat option" where
  "hexDigitValue ch =
     (let n = (of_char ch :: nat)
      in if 48 \<le> n \<and> n \<le> 57 then Some (n - 48)
         else if 97 \<le> n \<and> n \<le> 102 then Some (n - 87)
         else if 65 \<le> n \<and> n \<le> 70 then Some (n - 55)
         else None)"

fun hexPrefix :: "nat \<Rightarrow> string \<Rightarrow> nat" where
  "hexPrefix acc [] = acc"
| "hexPrefix acc (ch # cs) =
     (case hexDigitValue ch of None \<Rightarrow> acc | Some d \<Rightarrow> hexPrefix (16 * acc + d) cs)"

definition isWhiteSpace :: "char \<Rightarrow> bool" where
  "isWhiteSpace ch = (of_char ch \<in> {9, 10, 11, 12, 13, 32 :: nat})"

definition stripHexPrefix :: "string \<Rightarrow> string" where
  "stripHexPrefix s =
     (case s of
        a # b # rest \<Rightarrow> if a = CHR ''0'' \<and> (b = CHR ''x'' \<or> b = CHR ''X'') then rest else s
      | _ \<Rightarrow> s)"

definition parseInt16 :: "string \<Rightarrow> int option" where
  "parseInt16 s =
     (let t = dropWhile isWhiteSpace s;
          negative = (case t of ch # _ \<Rightarrow> ch = CHR ''-'' | [] \<Rightarrow> False);
          u = (case t of
                 ch # rest \<Rightarrow> if ch = CHR ''-'' \<or> ch = CHR ''+'' then rest else t
               | [] \<Rightarrow> t);
          v = stripHexPrefix u
      in case v of
           [] \<Rightarrow> None
         | ch # _ \<Rightarrow>
             (case hexDigitValue ch of
                None \<Rightarrow> None
              | Some _ \<Rightarrow> Some ((if negative then - 1 else 1) * int (hexPrefix 0 v))))"

text \<open>\<^verbatim>\<open>s.replace("#", "")\<close> removes the first \<^verbatim>\<open>#\<close>; \<^verbatim>\<open>s.substr(start, len)\<close>.\<close>

fun replaceFirst :: "char \<Rightarrow> string \<Rightarrow> string" where
  "replaceFirst ch [] = []"
| "replaceFirst ch (x # xs) = (if x = ch then xs else x # replaceFirst ch xs)"

definition substr :: "string \<Rightarrow> nat \<Rightarrow> nat \<Rightarrow> string" where
  "substr s start len = take len (drop start s)"

text \<open>
  \<^verbatim>\<open>n.toString(16)\<close> of an integer, in lower case, and \<^verbatim>\<open>s.padStart(2, "0")\<close>.
\<close>

definition hexDigitChar :: "nat \<Rightarrow> char" where
  "hexDigitChar d = ''0123456789abcdef'' ! d"

fun toString16_nat :: "nat \<Rightarrow> string" where
  "toString16_nat n =
     (if n < 16 then [hexDigitChar n] else toString16_nat (n div 16) @ [hexDigitChar (n mod 16)])"

declare toString16_nat.simps [simp del]

definition toString16 :: "int \<Rightarrow> string" where
  "toString16 n =
     (if n < 0 then CHR ''-'' # toString16_nat (nat (- n)) else toString16_nat (nat n))"

definition padStart2 :: "string \<Rightarrow> string" where
  "padStart2 s = replicate (2 - length s) CHR ''0'' @ s"

subsection \<open>The hue slider (lines 329-394)\<close>

definition hueSliderMin :: int where
  "hueSliderMin = 0"

definition hueSliderMax :: int where
  "hueSliderMax = 360"

text \<open>The \<^verbatim>\<open>value\<close> of the slider: the hue of the selected colour (lines 333-349).\<close>

definition hueOfChannels :: "rat \<Rightarrow> rat \<Rightarrow> rat \<Rightarrow> int" where
  "hueOfChannels r g b =
     (let mx = max r (max g b);
          mn = min r (min g b);
          diff = mx - mn;
          h = (if diff \<noteq> 0 then
                 (if mx = r then js_rem ((g - b) / diff) 6
                  else if mx = g then (b - r) / diff + 2
                  else (r - g) / diff + 4)
               else 0)
      in Math_round (h * 60))"

definition colorToHue :: "string \<Rightarrow> int option" where
  "colorToHue selected =
     (let hex = replaceFirst CHR ''#'' selected
      in case parseInt16 (substr hex 0 2) of
           None \<Rightarrow> None
         | Some ri \<Rightarrow>
             (case parseInt16 (substr hex 2 2) of
                None \<Rightarrow> None
              | Some gi \<Rightarrow>
                  (case parseInt16 (substr hex 4 2) of
                     None \<Rightarrow> None
                   | Some bi \<Rightarrow>
                       Some (hueOfChannels (of_int ri / 255) (of_int gi / 255)
                               (of_int bi / 255)))))"

text \<open>
  The \<^verbatim>\<open>onChange\<close> of the slider (lines 350-392). The chain of six tests is
  \<open>sextant\<close>; where none holds, the three channels keep the 0 they were declared with.
\<close>

datatype Sextant = Sextant0 | Sextant1 | Sextant2 | Sextant3 | Sextant4 | Sextant5

definition sextant :: "int \<Rightarrow> Sextant option" where
  "sextant hue =
     (if hue \<ge> 0 \<and> hue < 60 then Some Sextant0
      else if hue \<ge> 60 \<and> hue < 120 then Some Sextant1
      else if hue \<ge> 120 \<and> hue < 180 then Some Sextant2
      else if hue \<ge> 180 \<and> hue < 240 then Some Sextant3
      else if hue \<ge> 240 \<and> hue < 300 then Some Sextant4
      else if hue \<ge> 300 \<and> hue < 360 then Some Sextant5
      else None)"

definition hueChannels :: "int \<Rightarrow> rat \<times> rat \<times> rat" where
  "hueChannels hue =
     (let c = 1;
          x = c * (1 - \<bar>js_rem (of_int hue / 60) 2 - 1\<bar>)
      in case sextant hue of
           Some Sextant0 \<Rightarrow> (c, x, 0)
         | Some Sextant1 \<Rightarrow> (x, c, 0)
         | Some Sextant2 \<Rightarrow> (0, c, x)
         | Some Sextant3 \<Rightarrow> (0, x, c)
         | Some Sextant4 \<Rightarrow> (x, 0, c)
         | Some Sextant5 \<Rightarrow> (c, 0, x)
         | None \<Rightarrow> (0, 0, 0))"

definition hueToColor :: "int \<Rightarrow> string" where
  "hueToColor hue =
     (let c = (1 :: rat);
          m = 1 / 2 - c / 2;
          (r0, g0, b0) = hueChannels hue;
          r = Math_round ((r0 + m) * 255);
          g = Math_round ((g0 + m) * 255);
          b = Math_round ((b0 + m) * 255)
      in CHR ''#'' #
         padStart2 (toString16 r) @ padStart2 (toString16 g) @ padStart2 (toString16 b))"

text \<open>
  The specification's wording of the hue of three channels: the same chroma method
  with the mathematical \<open>mod 6\<close>, whose result is never negative.
\<close>

definition spec_mod :: "rat \<Rightarrow> rat \<Rightarrow> rat" where
  "spec_mod a b = a - b * of_int \<lfloor>a / b\<rfloor>"

definition spec_hueOfChannels :: "rat \<Rightarrow> rat \<Rightarrow> rat \<Rightarrow> int" where
  "spec_hueOfChannels r g b =
     (let mx = max r (max g b);
          mn = min r (min g b);
          diff = mx - mn
      in Math_round
           (if diff = 0 then 0
            else if mx = r then 60 * spec_mod ((g - b) / diff) 6
            else if mx = g then 60 * ((b - r) / diff + 2)
            else 60 * ((r - g) / diff + 4)))"

definition hueSliderValue :: "State \<Rightarrow> int option" where
  "hueSliderValue st = colorToHue (selectedColor st)"

definition hueSliderChange :: "State \<Rightarrow> int \<Rightarrow> State" where
  "hueSliderChange st hue = st\<lparr>selectedColor := hueToColor hue\<rparr>"

subsection \<open>The hex field (lines 466-477)\<close>

text \<open>
  The regular expression \<^verbatim>\<open>/^#[0-9A-Fa-f]{6}$/\<close> as a sequence of items, each
  repeated a fixed number of times, matched against the whole string: without the
  \<^verbatim>\<open>m\<close> flag \<^verbatim>\<open>^\<close> and \<^verbatim>\<open>$\<close> are the two ends of the input. A character class is
  a list of ranges of character codes. A character outside ASCII is several bytes
  here, none of them in a range, as its one code unit is in none in JavaScript.
\<close>

datatype RegexItem = Lit char | Class "(char \<times> char) list"

fun itemMatches :: "RegexItem \<Rightarrow> char \<Rightarrow> bool" where
  "itemMatches (Lit a) ch = (ch = a)"
| "itemMatches (Class ranges) ch =
     list_ex (\<lambda>(lo, hi). (of_char lo :: nat) \<le> of_char ch \<and> (of_char ch :: nat) \<le> of_char hi)
       ranges"

fun regexTest :: "(RegexItem \<times> nat) list \<Rightarrow> string \<Rightarrow> bool" where
  "regexTest [] s = (s = [])"
| "regexTest ((item, 0) # rest) s = regexTest rest s"
| "regexTest ((item, Suc n) # rest) [] = False"
| "regexTest ((item, Suc n) # rest) (ch # cs) =
     (itemMatches item ch \<and> regexTest ((item, n) # rest) cs)"

definition hexColorPattern :: "(RegexItem \<times> nat) list" where
  "hexColorPattern =
     [(Lit CHR ''#'', 1),
      (Class [(CHR ''0'', CHR ''9''), (CHR ''A'', CHR ''F''), (CHR ''a'', CHR ''f'')], 6)]"

definition hexInputChange :: "State \<Rightarrow> string \<Rightarrow> State" where
  "hexInputChange st v = (if regexTest hexColorPattern v then st\<lparr>selectedColor := v\<rparr> else st)"

text \<open>
  The specification's wording of a valid hex text: \<^verbatim>\<open>#\<close> followed by exactly six
  hexadecimal digits.
\<close>

definition spec_isHexColor :: "string \<Rightarrow> bool" where
  "spec_isHexColor s =
     (case s of
        [] \<Rightarrow> False
      | ch # ds \<Rightarrow> ch = CHR ''#'' \<and> length ds = 6 \<and>
          list_all (\<lambda>d. d \<in> set ''0123456789ABCDEFabcdef'') ds)"

subsection \<open>Export (lines 136-165)\<close>

text \<open>
  The 2D context of the canvas element that \<^verbatim>\<open>downloadImage\<close> creates: its size, the
  current fill style and the bitmap, a list of lines of pixels. A new bitmap is
  transparent and the fill style starts as black. Coordinates and sizes are natural
  numbers: they are products of array indices and the scale, which the slider gives
  as an integer from 5 to 20.

  The grid only ever holds colours of the form \<^verbatim>\<open>#RRGGBB\<close>, which the context reads
  as three channels; an assignment of a string that is no colour leaves the fill
  style as it was. Other CSS colour syntaxes never reach the context and are not
  recognised here. With opaque colours and whole coordinates \<^verbatim>\<open>fillRect\<close> replaces
  exactly the pixels of the rectangle that lie on the bitmap.

  \<^verbatim>\<open>getContext\<close> may return \<^verbatim>\<open>null\<close>, and then \<^verbatim>\<open>downloadImage\<close> returns at once:
  the first argument says whether a context was obtained. The result is the context
  as it is handed to \<^verbatim>\<open>toDataURL\<close>; the encoding and the download are the browser's.
\<close>

type_synonym rgb = "nat \<times> nat \<times> nat"

datatype BitmapPixel = Transparent | Opaque rgb

record Context2D =
  width :: nat
  height :: nat
  fillStyle :: rgb
  bitmap :: "BitmapPixel list list"

definition cssHexColor :: "string \<Rightarrow> rgb option" where
  "cssHexColor s =
     (if regexTest hexColorPattern s
      then Some (hexPrefix 0 (substr s 1 2), hexPrefix 0 (substr s 3 2), hexPrefix 0 (substr s 5 2))
      else None)"

definition createCanvas :: "nat \<Rightarrow> nat \<Rightarrow> Context2D" where
  "createCanvas w h =
     \<lparr>width = w, height = h, fillStyle = (0, 0, 0), bitmap = replicate h (replicate w Transparent)\<rparr>"

definition setFillStyle :: "Context2D \<Rightarrow> string \<Rightarrow> Context2D" where
  "setFillStyle ctx s = (case cssHexColor s of None \<Rightarrow> ctx | Some c \<Rightarrow> ctx\<lparr>fillStyle := c\<rparr>)"

definition fillRect :: "Context2D \<Rightarrow> nat \<Rightarrow> nat \<Rightarrow> nat \<Rightarrow> nat \<Rightarrow> Context2D" where
  "fillRect ctx x y w h =
     ctx\<lparr>bitmap :=
       map_indexed (\<lambda>line py.
         map_indexed (\<lambda>p px.
           if x \<le> px \<and> px < x + w \<and> y \<le> py \<and> py < y + h then Opaque (fillStyle ctx) else p)
           line)
         (bitmap ctx)\<rparr>"

text \<open>The callbacks of the two nested \<^verbatim>\<open>forEach\<close> loops (lines 151-156).\<close>

definition paintCell :: "nat \<Rightarrow> nat \<Rightarrow> Context2D \<Rightarrow> Pixel \<Rightarrow> nat \<Rightarrow> Context2D" where
  "paintCell pixelSize rowIndex ctx pixel colIndex =
     fillRect (setFillStyle ctx (color pixel))
       (colIndex * pixelSize) (rowIndex * pixelSize) pixelSize pixelSize"

definition paintRow :: "nat \<Rightarrow> Context2D \<Rightarrow> Pixel list \<Rightarrow> nat \<Rightarrow> Context2D" where
  "paintRow pixelSize ctx row rowIndex = forEach (paintCell pixelSize rowIndex) ctx row"

definition downloadImage :: "bool \<Rightarrow> State \<Rightarrow> ExportFormat \<Rightarrow> nat \<Rightarrow> Context2D option" where
  "downloadImage has2d st format scale =
     (if \<not> has2d then None
      else
        (let pixelSize = scale;
             ctx0 = createCanvas (GRID_SIZE * pixelSize) (GRID_SIZE * pixelSize);
             ctx1 = (if format = jpeg
                     then fillRect (setFillStyle ctx0 ''#FFFFFF'') 0 0 (width ctx0) (height ctx0)
                     else ctx0)
         in Some (forEach (paintRow pixelSize) ctx1 (canvas st))))"

text \<open>Every cell holds a colour of the form \<^verbatim>\<open>#RRGGBB\<close>.\<close>

definition coloursValid :: "CanvasState \<Rightarrow> bool" where
  "coloursValid cv = list_all (list_all (\<lambda>p. regexTest hexColorPattern (color p))) cv"

text \<open>A context of the given width and height whose bitmap has that shape.\<close>

definition wfCtx :: "nat \<Rightarrow> nat \<Rightarrow> Context2D \<Rightarrow> bool" where
  "wfCtx W H ctx =
     (width ctx = W \<and> height ctx = H \<and> length (bitmap ctx) = H \<and>
      list_all (\<lambda>line. length line = W) (bitmap ctx))"

subsection \<open>The paint on a store of objects\<close>

text \<open>
  To say that a paint writes to nothing that exists, the \<^verbatim>\<open>map\<close> expression of
  \<^verbatim>\<open>drawPixel\<close> is written a second time over a store: an address is a position in
  the store, a pixel object holds its colour, an array holds the addresses of its
  elements, and a new object is put at the end. The inner \<^verbatim>\<open>map\<close> keeps the address of
  a pixel it does not replace, as the source keeps the object, so the old and the new
  grid share their unchanged pixels. An array is entered into the store once its
  elements are known. Calling \<^verbatim>\<open>map\<close> on what is not an array throws (\<open>None\<close>).
\<close>

datatype HeapObject = PixelObject string | ArrayObject "nat list"

type_synonym Heap = "HeapObject list"

definition allocate :: "Heap \<Rightarrow> HeapObject \<Rightarrow> Heap \<times> nat" where
  "allocate h ob = (h @ [ob], length h)"

fun heap_mapPixels ::
  "int \<Rightarrow> int \<Rightarrow> string \<Rightarrow> nat \<Rightarrow> nat \<Rightarrow> Heap \<Rightarrow> nat list \<Rightarrow> Heap \<times> nat list" where
  "heap_mapPixels row col c rowIndex colIndex h [] = (h, [])"
| "heap_mapPixels row col c rowIndex colIndex h (p # ps) =
     (let (h1, q) = (if int rowIndex = row \<and> int colIndex = col
                     then allocate h (PixelObject c) else (h, p));
          (h2, qs) = heap_mapPixels row col c rowIndex (Suc colIndex) h1 ps
      in (h2, q # qs))"

fun heap_mapRows ::
  "int \<Rightarrow> int \<Rightarrow> string \<Rightarrow> nat \<Rightarrow> Heap \<Rightarrow> nat list \<Rightarrow> (Heap \<times> nat list) option" where
  "heap_mapRows row col c rowIndex h [] = Some (h, [])"
| "heap_mapRows row col c rowIndex h (r # rs) =
     (case at_index h (int r) of
        Some (ArrayObject ps) \<Rightarrow>
          (let (h1, qs) = heap_mapPixels row col c rowIndex 0 h ps;
               (h2, r') = allocate h1 (ArrayObject qs)
           in case heap_mapRows row col c (Suc rowIndex) h2 rs of
                None \<Rightarrow> None
              | Some (h3, rs') \<Rightarrow> Some (h3, r' # rs'))
      | _ \<Rightarrow> None)"

definition heap_setCell :: "Heap \<Rightarrow> nat \<Rightarrow> int \<Rightarrow> int \<Rightarrow> string \<Rightarrow> (Heap \<times> nat) option" where
  "heap_setCell h cv row col c =
     (case at_index h (int cv) of
        Some (ArrayObject rs) \<Rightarrow>
          (case heap_mapRows row col c 0 h rs of
             None \<Rightarrow> None
           | Some (h1, rs') \<Rightarrow> Some (allocate h1 (ArrayObject rs')))
      | _ \<Rightarrow> None)"

text \<open>What an address holds, read as a value: a pixel, a row, a grid.\<close>

definition pixel_at :: "Heap \<Rightarrow> nat \<Rightarrow> Pixel \<Rightarrow> bool" where
  "pixel_at h a p = (a < length h \<and> h ! a = PixelObject (color p))"

definition row_at :: "Heap \<Rightarrow> nat \<Rightarrow> Pixel list \<Rightarrow> bool" where
  "row_at h a r =
     (a < length h \<and>
      (case h ! a of ArrayObject ps \<Rightarrow> list_all2 (pixel_at h) ps r | _ \<Rightarrow> False))"

definition grid_at :: "Heap \<Rightarrow> nat \<Rightarrow> CanvasState \<Rightarrow> bool" where
  "grid_at h a g =
     (a < length h \<and>
      (case h ! a of ArrayObject rs \<Rightarrow> list_all2 (row_at h) rs g | _ \<Rightarrow> False))"

text \<open>A store with a grid of two rows of two white pixels at address 6.\<close>

definition exampleGrid :: CanvasState where
  "exampleGrid = replicate 2 (replicate 2 \<lparr>color = ''#FFFFFF''\<rparr>)"

definition exampleHeap :: Heap where
  "exampleHeap =
     [PixelObject ''#FFFFFF'', PixelObject ''#FFFFFF'', PixelObject ''#FFFFFF'',
      PixelObject ''#FFFFFF'', ArrayObject [0, 1], ArrayObject [2, 3], ArrayObject [4, 5]]"

text \<open>A square grid of the given side.\<close>

definition isGrid :: "nat \<Rightarrow> CanvasState \<Rightarrow> bool" where
  "isGrid side cv = (length cv = side \<and> list_all (\<lambda>r. length r = side) cv)"

subsection \<open>Example states\<close>

text \<open>
  The first scenario of the specification: on the mounted component the colour
  \<^verbatim>\<open>#FF0000\<close> is selected and the mouse is pressed on cell (0,0); then one undo.
\<close>

definition mountedState :: State where
  "mountedState = mountEffect initialState"

definition paintedState :: State where
  "paintedState = handleMouseDown (mountedState\<lparr>selectedColor := ''#FF0000''\<rparr>) 0 0"

definition undoneState :: State where
  "undoneState = paintedState\<lparr>historyIndex := 0, canvas := blankCanvas\<rparr>"

section \<open>Facts about the helpers\<close>

lemma length_map_from: "length (map_from i f xs) = length xs"
  by (induction xs arbitrary: i) simp_all

lemma nth_map_from: "n < length xs \<Longrightarrow> map_from i f xs ! n = f (xs ! n) (i + n)"
proof (induction xs arbitrary: i n)
  case Nil
  then show ?case by simp
next
  case (Cons x xs)
  show ?case
  proof (cases n)
    case 0
    then show ?thesis by simp
  next
    case (Suc m)
    with Cons.prems have "m < length xs" by simp
    from Cons.IH [OF this, of "Suc i"] Suc show ?thesis by simp
  qed
qed

lemma length_map_indexed: "length (map_indexed f xs) = length xs"
  by (simp add: map_indexed_def length_map_from)

lemma nth_map_indexed: "n < length xs \<Longrightarrow> map_indexed f xs ! n = f (xs ! n) n"
  by (simp add: map_indexed_def nth_map_from)

lemma slice0_nonneg: "0 \<le> e \<Longrightarrow> slice0 xs e = take (nat e) xs"
  by (simp add: slice0_def)

lemma at_index_append_last: "at_index (xs @ [x]) (int (length xs)) = Some x"
  by (simp add: at_index_def)

lemma at_index_append_old:
  "0 \<le> i \<Longrightarrow> i < int (length xs) \<Longrightarrow> at_index (xs @ ys) i = Some (xs ! nat i)"
  by (auto simp: at_index_def nth_append)

lemma at_index_take:
  "0 \<le> i \<Longrightarrow> i < int n \<Longrightarrow> i < int (length xs) \<Longrightarrow> at_index (take n xs) i = Some (xs ! nat i)"
  by (simp add: at_index_def)

section \<open>The history invariant\<close>

lemma saveToHistory_fields:
  "history (saveToHistory st g) = slice0 (history st) (historyIndex st + 1) @ [g]"
  "historyIndex (saveToHistory st g) =
     int (length (slice0 (history st) (historyIndex st + 1)))"
  "canvas (saveToHistory st g) = canvas st"
  "selectedColor (saveToHistory st g) = selectedColor st"
  "isDrawing (saveToHistory st g) = isDrawing st"
  by (simp_all add: saveToHistory_def Let_def)

lemma history_ok_saveToHistory:
  "- 1 \<le> historyIndex st \<Longrightarrow> canvas st = g \<Longrightarrow> history_ok (saveToHistory st g)"
  by (simp add: history_ok_def saveToHistory_fields at_index_append_last)

lemma history_ok_mounted: "history_ok (mountEffect initialState)"
  by (simp add: history_ok_def mountEffect_def initialState_def at_index_def)

lemma history_ok_drawPixel:
  assumes "history_ok st"
  shows "history_ok (drawPixel st row col)"
proof -
  from assms have "- 1 \<le> historyIndex st" by (simp add: history_ok_def)
  then show ?thesis
    unfolding drawPixel_def Let_def by (intro history_ok_saveToHistory) simp_all
qed

lemma history_ok_clearCanvas:
  assumes "history_ok st"
  shows "history_ok (clearCanvas st)"
proof -
  from assms have "- 1 \<le> historyIndex st" by (simp add: history_ok_def)
  then show ?thesis
    unfolding clearCanvas_def Let_def by (intro history_ok_saveToHistory) simp_all
qed

lemma history_ok_undo: "history_ok st \<Longrightarrow> undo st = Inr st' \<Longrightarrow> history_ok st'"
  by (auto simp: undo_def Let_def history_ok_def at_index_def split: if_splits option.splits)

lemma history_ok_redo: "history_ok st \<Longrightarrow> redo st = Inr st' \<Longrightarrow> history_ok st'"
  by (auto simp: redo_def Let_def history_ok_def at_index_def split: if_splits option.splits)

lemma history_ok_handleEvent:
  "history_ok st \<Longrightarrow> handleEvent st e = Inr st' \<Longrightarrow> history_ok st'"
proof (cases e)
  case (MouseDown row col)
  assume ok: "history_ok st" and h: "handleEvent st e = Inr st'"
  from ok have "history_ok (st\<lparr>isDrawing := True\<rparr>)" by (simp add: history_ok_def)
  then have "history_ok (drawPixel (st\<lparr>isDrawing := True\<rparr>) row col)"
    by (rule history_ok_drawPixel)
  with h MouseDown show ?thesis by (simp add: handleMouseDown_def)
next
  case (MouseEnter row col)
  assume ok: "history_ok st" and h: "handleEvent st e = Inr st'"
  with MouseEnter show ?thesis
    by (auto simp: handleMouseEnter_def history_ok_drawPixel split: if_splits)
next
  case MouseUp
  assume "history_ok st" and "handleEvent st e = Inr st'"
  with MouseUp show ?thesis by (auto simp: handleMouseUp_def history_ok_def)
next
  case ClearCanvas
  assume "history_ok st" and "handleEvent st e = Inr st'"
  with ClearCanvas show ?thesis by (auto simp: history_ok_clearCanvas)
next
  case Undo
  assume "history_ok st" and "handleEvent st e = Inr st'"
  with Undo show ?thesis by (auto dest: history_ok_undo)
next
  case Redo
  assume "history_ok st" and "handleEvent st e = Inr st'"
  with Redo show ?thesis by (auto dest: history_ok_redo)
next
  case (SetSelectedColor c)
  assume "history_ok st" and "handleEvent st e = Inr st'"
  with SetSelectedColor show ?thesis by (auto simp: history_ok_def)
next
  case (SetExportFormat f)
  assume "history_ok st" and "handleEvent st e = Inr st'"
  with SetExportFormat show ?thesis by (auto simp: history_ok_def)
next
  case (SetExportScale n)
  assume "history_ok st" and "handleEvent st e = Inr st'"
  with SetExportScale show ?thesis by (auto simp: history_ok_def)
qed

lemma reachable_history_ok: "reachable st \<Longrightarrow> history_ok st"
  by (induction rule: reachable.induct) (auto intro: history_ok_mounted history_ok_handleEvent)

section \<open>Facts about painting\<close>

lemma length_setCell: "length (setCell cv row col c) = length cv"
  by (simp add: setCell_def length_map_indexed)

lemma nth_setCell:
  "n < length cv \<Longrightarrow>
   setCell cv row col c ! n =
     map_indexed (\<lambda>pixel colIndex.
       if int n = row \<and> int colIndex = col then \<lparr>color = c\<rparr> else pixel) (cv ! n)"
  by (simp add: setCell_def nth_map_indexed)

lemma length_nth_setCell:
  "n < length cv \<Longrightarrow> length (setCell cv row col c ! n) = length (cv ! n)"
  by (simp add: nth_setCell length_map_indexed)

lemma nth_nth_setCell:
  "n < length cv \<Longrightarrow> k < length (cv ! n) \<Longrightarrow>
   setCell cv row col c ! n ! k =
     (if int n = row \<and> int k = col then \<lparr>color = c\<rparr> else cv ! n ! k)"
  by (simp add: nth_setCell nth_map_indexed)

lemma getCell_Some_iff:
  "getCell cv row col = Some x \<longleftrightarrow>
     0 \<le> row \<and> row < int (length cv) \<and> 0 \<le> col \<and>
     col < int (length (cv ! nat row)) \<and> color (cv ! nat row ! nat col) = x"
  by (auto simp: getCell_def at_index_def)

lemma getCell_None_iff:
  "getCell cv row col = None \<longleftrightarrow>
     \<not> (0 \<le> row \<and> row < int (length cv) \<and> 0 \<le> col \<and>
        col < int (length (cv ! nat row)))"
  by (auto simp: getCell_def at_index_def)

lemma getCell_setCell:
  "getCell (setCell cv row col c) r k =
     (case getCell cv r k of
        None \<Rightarrow> None
      | Some old \<Rightarrow> Some (if r = row \<and> k = col then c else old))"
proof (cases "0 \<le> r \<and> r < int (length cv) \<and> 0 \<le> k \<and> k < int (length (cv ! nat r))")
  case True
  then have n: "nat r < length cv" and m: "nat k < length (cv ! nat r)" by auto
  from True have old: "getCell cv r k = Some (color (cv ! nat r ! nat k))"
    by (simp add: getCell_Some_iff)
  from True n m have "getCell (setCell cv row col c) r k =
      Some (color (setCell cv row col c ! nat r ! nat k))"
    by (simp add: getCell_Some_iff length_setCell length_nth_setCell)
  also from True n m have "color (setCell cv row col c ! nat r ! nat k) =
      (if r = row \<and> k = col then c else color (cv ! nat r ! nat k))"
    by (auto simp: nth_nth_setCell)
  finally show ?thesis using old by simp
next
  case False
  then have old: "getCell cv r k = None" by (simp add: getCell_None_iff)
  from False have "getCell (setCell cv row col c) r k = None"
    by (auto simp: getCell_None_iff length_setCell length_nth_setCell)
  with old show ?thesis by simp
qed

lemma setCell_outside:
  assumes "\<not> (0 \<le> row \<and> row < int (length cv) \<and> 0 \<le> col \<and> col < int (length (cv ! nat row)))"
  shows "setCell cv row col c = cv"
proof (rule nth_equalityI)
  show "length (setCell cv row col c) = length cv" by (rule length_setCell)
next
  fix n assume "n < length (setCell cv row col c)"
  then have n: "n < length cv" by (simp add: length_setCell)
  show "setCell cv row col c ! n = cv ! n"
  proof (rule nth_equalityI)
    from n show "length (setCell cv row col c ! n) = length (cv ! n)"
      by (rule length_nth_setCell)
  next
    fix k assume "k < length (setCell cv row col c ! n)"
    with n have k: "k < length (cv ! n)" by (simp add: length_nth_setCell)
    from assms n k have "\<not> (int n = row \<and> int k = col)" by auto
    with n k show "setCell cv row col c ! n ! k = cv ! n ! k"
      by (auto simp: nth_nth_setCell)
  qed
qed

lemma getCell_blankCanvas:
  "getCell blankCanvas row col =
     (if 0 \<le> row \<and> row < int GRID_SIZE \<and> 0 \<le> col \<and> col < int GRID_SIZE
      then Some ''#FFFFFF'' else None)"
proof (cases "0 \<le> row \<and> row < int GRID_SIZE \<and> 0 \<le> col \<and> col < int GRID_SIZE")
  case True
  then have r: "nat row < GRID_SIZE" and k: "nat col < GRID_SIZE" by auto
  from r have row: "blankCanvas ! nat row = replicate GRID_SIZE \<lparr>color = ''#FFFFFF''\<rparr>"
    by (simp add: blankCanvas_def)
  have "length blankCanvas = GRID_SIZE" by (simp add: blankCanvas_def)
  with True r k row show ?thesis by (simp add: getCell_Some_iff)
next
  case False
  have n: "length blankCanvas = GRID_SIZE" by (simp add: blankCanvas_def)
  have "length (blankCanvas ! nat row) = GRID_SIZE" if "0 \<le> row \<and> row < int GRID_SIZE"
  proof -
    from that have "nat row < GRID_SIZE" by auto
    then show ?thesis by (simp add: blankCanvas_def)
  qed
  with False n show ?thesis by (auto simp: getCell_None_iff)
qed

section \<open>The claims about the history\<close>

text \<open>
  C2. For a history whose cursor \<open>k\<close> is before the last snapshot, \<open>saveToHistory\<close>
  keeps the snapshots at indices \<open>0..k\<close>, appends the new grid and puts the cursor on
  it, the new last index. The result is the same whatever the snapshots after \<open>k\<close>
  were, so nothing of them is left. A redo right after the commit changes nothing,
  and the redo button is disabled.
\<close>

theorem commit_truncates_and_redo_at_end:
  assumes "0 \<le> historyIndex st" and "historyIndex st < int (length (history st)) - 1"
  shows "history (saveToHistory st g) = take (nat (historyIndex st) + 1) (history st) @ [g] \<and>
         historyIndex (saveToHistory st g) = historyIndex st + 1 \<and>
         historyIndex (saveToHistory st g) = int (length (history (saveToHistory st g))) - 1 \<and>
         at_index (history (saveToHistory st g)) (historyIndex (saveToHistory st g)) = Some g \<and>
         (\<forall>rest. saveToHistory (st\<lparr>history := take (nat (historyIndex st) + 1) (history st) @ rest\<rparr>) g =
                 saveToHistory st g) \<and>
         redo (saveToHistory st g) = Inr (saveToHistory st g) \<and>
         redoDisabled (saveToHistory st g)"
proof -
  let ?k = "nat (historyIndex st) + 1"
  from assms have e: "nat (historyIndex st + 1) = ?k" by simp
  from assms have sl: "slice0 (history st) (historyIndex st + 1) = take ?k (history st)"
    by (simp add: slice0_nonneg e)
  from assms have len: "length (take ?k (history st)) = ?k" by simp
  have h: "history (saveToHistory st g) = take ?k (history st) @ [g]"
    by (simp add: saveToHistory_fields sl)
  from assms have i: "historyIndex (saveToHistory st g) = historyIndex st + 1"
    by (simp add: saveToHistory_fields sl)
  from assms have last: "historyIndex (saveToHistory st g) =
      int (length (history (saveToHistory st g))) - 1"
    by (simp add: h i)
  have cur: "at_index (history (saveToHistory st g)) (historyIndex (saveToHistory st g)) = Some g"
  proof -
    have "at_index (take ?k (history st) @ [g]) (int (length (take ?k (history st)))) = Some g"
      by (rule at_index_append_last)
    moreover from assms have "int (length (take ?k (history st))) = historyIndex st + 1"
      by simp
    ultimately show ?thesis by (simp only: h i)
  qed
  have indep: "saveToHistory (st\<lparr>history := take ?k (history st) @ rest\<rparr>) g =
      saveToHistory st g" for rest
    using assms by (simp add: saveToHistory_def Let_def slice0_nonneg e)
  from last have r: "redo (saveToHistory st g) = Inr (saveToHistory st g)"
    by (simp add: redo_def)
  from last have d: "redoDisabled (saveToHistory st g)"
    by (simp add: redoDisabled_def)
  from h i last cur indep r d show ?thesis by blast
qed

text \<open>
  C4. In every reachable state where undo is valid (the cursor is above 0), undo
  succeeds and moves the cursor one step back, and redo from there gives back the
  state before the undo: the same grid, the same cursor, the same history.
\<close>

theorem undo_then_redo_restores:
  assumes "reachable st" and "historyIndex st > 0"
  shows "\<exists>st1. undo st = Inr st1 \<and> historyIndex st1 = historyIndex st - 1 \<and>
           (\<exists>st2. redo st1 = Inr st2 \<and> canvas st2 = canvas st \<and>
              historyIndex st2 = historyIndex st \<and> st2 = st)"
proof -
  from assms(1) have ok: "history_ok st" by (rule reachable_history_ok)
  let ?k = "historyIndex st"
  from ok assms(2) have prev: "at_index (history st) (?k - 1) = Some (history st ! nat (?k - 1))"
    by (simp add: history_ok_def at_index_def)
  define st1 where "st1 = st\<lparr>historyIndex := ?k - 1, canvas := history st ! nat (?k - 1)\<rparr>"
  from assms(2) prev have u: "undo st = Inr st1"
    by (simp add: undo_def Let_def st1_def)
  from ok have cur: "at_index (history st1) (historyIndex st1 + 1) = Some (canvas st)"
    by (simp add: st1_def history_ok_def)
  from ok have lt: "historyIndex st1 < int (length (history st1)) - 1"
    by (simp add: st1_def history_ok_def)
  from lt cur have r: "redo st1 = Inr (st1\<lparr>historyIndex := historyIndex st1 + 1, canvas := canvas st\<rparr>)"
    by (simp add: redo_def Let_def)
  have restored: "st1\<lparr>historyIndex := historyIndex st1 + 1, canvas := canvas st\<rparr> = st"
    by (simp add: st1_def)
  have "historyIndex st1 = ?k - 1" by (simp add: st1_def)
  with u r restored show ?thesis by simp
qed

text \<open>
  C10. \<open>clearCanvas\<close> replaces the grid with the \<open>GRID_SIZE\<close> by \<open>GRID_SIZE\<close> grid
  whose cells are all \<^verbatim>\<open>#FFFFFF\<close> and commits it as one new history entry: the
  snapshots up to the cursor are kept, those after it are dropped, the cleared grid
  is appended and the cursor is on it, the new last index. One undo gives back the
  grid and the cursor from before the clear.
\<close>

theorem clearCanvas_is_one_undoable_step:
  assumes "reachable st"
  shows "canvas (clearCanvas st) = blankCanvas \<and>
         length blankCanvas = GRID_SIZE \<and>
         (\<forall>row col. 0 \<le> row \<and> row < int GRID_SIZE \<and> 0 \<le> col \<and> col < int GRID_SIZE \<longrightarrow>
            getCell (canvas (clearCanvas st)) row col = Some ''#FFFFFF'') \<and>
         (\<forall>row col. \<not> (0 \<le> row \<and> row < int GRID_SIZE \<and> 0 \<le> col \<and> col < int GRID_SIZE) \<longrightarrow>
            getCell (canvas (clearCanvas st)) row col = None) \<and>
         history (clearCanvas st) =
           take (nat (historyIndex st) + 1) (history st) @ [blankCanvas] \<and>
         historyIndex (clearCanvas st) = historyIndex st + 1 \<and>
         historyIndex (clearCanvas st) = int (length (history (clearCanvas st))) - 1 \<and>
         undo (clearCanvas st) =
           Inr ((clearCanvas st)\<lparr>historyIndex := historyIndex st, canvas := canvas st\<rparr>)"
proof -
  from assms have ok: "history_ok st" by (rule reachable_history_ok)
  let ?k = "nat (historyIndex st) + 1"
  from ok have nn: "0 \<le> historyIndex st" by (simp add: history_ok_def)
  then have e: "nat (historyIndex st + 1) = ?k" by simp
  from ok have sl: "slice0 (history st) (historyIndex st + 1) = take ?k (history st)"
    by (simp add: slice0_nonneg e history_ok_def)
  from ok have lt: "historyIndex st < int (length (history st))" by (simp add: history_ok_def)
  from nn lt have len: "length (take ?k (history st)) = ?k" by simp
  have c: "canvas (clearCanvas st) = blankCanvas"
    by (simp add: clearCanvas_def Let_def saveToHistory_fields)
  have n: "length blankCanvas = GRID_SIZE" by (simp add: blankCanvas_def)
  have white: "getCell blankCanvas row col = Some ''#FFFFFF''"
    if "0 \<le> row \<and> row < int GRID_SIZE \<and> 0 \<le> col \<and> col < int GRID_SIZE" for row col
    using that by (simp add: getCell_blankCanvas)
  have none: "getCell blankCanvas row col = None"
    if "\<not> (0 \<le> row \<and> row < int GRID_SIZE \<and> 0 \<le> col \<and> col < int GRID_SIZE)" for row col
    using that by (simp add: getCell_blankCanvas)
  have h: "history (clearCanvas st) = take ?k (history st) @ [blankCanvas]"
    by (simp add: clearCanvas_def Let_def saveToHistory_fields sl)
  from nn lt have i: "historyIndex (clearCanvas st) = historyIndex st + 1"
    by (simp add: clearCanvas_def Let_def saveToHistory_fields sl)
  from nn lt have last: "historyIndex (clearCanvas st) = int (length (history (clearCanvas st))) - 1"
    by (simp add: h i)
  from ok have "at_index (history (clearCanvas st)) (historyIndex st) = Some (canvas st)"
    by (auto simp: h history_ok_def at_index_def nth_append)
  with nn have u: "undo (clearCanvas st) =
      Inr ((clearCanvas st)\<lparr>historyIndex := historyIndex st, canvas := canvas st\<rparr>)"
    by (simp add: undo_def Let_def i)
  from c n white none h i last u show ?thesis by simp
qed

lemma mountedState_fields:
  "canvas mountedState = blankCanvas"
  "history mountedState = [blankCanvas]"
  "historyIndex mountedState = 0"
  by (simp_all add: mountedState_def mountEffect_def initialState_def)

lemma paintedState_fields:
  "canvas paintedState = setCell blankCanvas 0 0 ''#FF0000''"
  "history paintedState = [blankCanvas, setCell blankCanvas 0 0 ''#FF0000'']"
  "historyIndex paintedState = 1"
  by (simp_all add: paintedState_def handleMouseDown_def drawPixel_def Let_def
      saveToHistory_fields slice0_def mountedState_fields)

lemma undoneState_fields:
  "canvas undoneState = blankCanvas"
  "history undoneState = [blankCanvas, setCell blankCanvas 0 0 ''#FF0000'']"
  "historyIndex undoneState = 0"
  by (simp_all add: undoneState_def paintedState_fields)

lemma reachable_mountedState: "reachable mountedState"
  unfolding mountedState_def by (rule reachable.mounted)

lemma reachable_paintedState: "reachable paintedState"
proof -
  have "handleEvent mountedState (SetSelectedColor ''#FF0000'') =
      Inr (mountedState\<lparr>selectedColor := ''#FF0000''\<rparr>)"
    by simp
  with reachable_mountedState have "reachable (mountedState\<lparr>selectedColor := ''#FF0000''\<rparr>)"
    by (rule reachable.step)
  moreover have "handleEvent (mountedState\<lparr>selectedColor := ''#FF0000''\<rparr>) (MouseDown 0 0) =
      Inr paintedState"
    by (simp add: paintedState_def)
  ultimately show ?thesis by (rule reachable.step)
qed

lemma undo_paintedState: "undo paintedState = Inr undoneState"
  by (simp add: undo_def Let_def paintedState_fields at_index_def undoneState_def)

lemma reachable_undoneState: "reachable undoneState"
proof -
  have "handleEvent paintedState Undo = Inr undoneState" by (simp add: undo_paintedState)
  with reachable_paintedState show ?thesis by (rule reachable.step)
qed

theorem commit_truncates_and_redo_at_end_witness:
  "0 \<le> historyIndex undoneState \<and>
   historyIndex undoneState < int (length (history undoneState)) - 1 \<and>
   history (saveToHistory undoneState blankCanvas) = [blankCanvas, blankCanvas] \<and>
   historyIndex (saveToHistory undoneState blankCanvas) = 1 \<and>
   redo (saveToHistory undoneState blankCanvas) = Inr (saveToHistory undoneState blankCanvas) \<and>
   redoDisabled (saveToHistory undoneState blankCanvas)"
proof -
  have a: "0 \<le> historyIndex undoneState"
    and b: "historyIndex undoneState < int (length (history undoneState)) - 1"
    by (simp_all add: undoneState_fields)
  from commit_truncates_and_redo_at_end [OF a b, of blankCanvas] a b
  show ?thesis by (simp add: undoneState_fields)
qed

theorem undo_then_redo_restores_witness:
  "reachable paintedState \<and> historyIndex paintedState > 0 \<and>
   undo paintedState = Inr undoneState \<and> redo undoneState = Inr paintedState"
proof -
  have a: "historyIndex paintedState > 0" by (simp add: paintedState_fields)
  from undo_then_redo_restores [OF reachable_paintedState a]
  have "redo undoneState = Inr paintedState" by (simp add: undo_paintedState)
  with reachable_paintedState a undo_paintedState show ?thesis by simp
qed

theorem clearCanvas_is_one_undoable_step_witness:
  "reachable paintedState \<and>
   canvas (clearCanvas paintedState) = blankCanvas \<and>
   getCell (canvas (clearCanvas paintedState)) 0 0 = Some ''#FFFFFF'' \<and>
   getCell (canvas (clearCanvas paintedState)) 32 0 = None \<and>
   history (clearCanvas paintedState) =
     [blankCanvas, setCell blankCanvas 0 0 ''#FF0000'', blankCanvas] \<and>
   historyIndex (clearCanvas paintedState) = 2 \<and>
   undo (clearCanvas paintedState) =
     Inr ((clearCanvas paintedState)\<lparr>historyIndex := 1, canvas := canvas paintedState\<rparr>)"
proof -
  have g: "(0::int) < int GRID_SIZE" "\<not> (32::int) < int GRID_SIZE"
    by (simp_all add: GRID_SIZE_def)
  note t = clearCanvas_is_one_undoable_step [OF reachable_paintedState]
  from t have inside: "0 \<le> row \<and> row < int GRID_SIZE \<and> 0 \<le> col \<and> col < int GRID_SIZE \<longrightarrow>
      getCell (canvas (clearCanvas paintedState)) row col = Some ''#FFFFFF''" for row col
    by blast
  from t have outside: "\<not> (0 \<le> row \<and> row < int GRID_SIZE \<and> 0 \<le> col \<and> col < int GRID_SIZE) \<longrightarrow>
      getCell (canvas (clearCanvas paintedState)) row col = None" for row col
    by blast
  from inside [of 0 0] g have i: "getCell (canvas (clearCanvas paintedState)) 0 0 = Some ''#FFFFFF''"
    by simp
  from outside [of 32 0] g have o: "getCell (canvas (clearCanvas paintedState)) 32 0 = None"
    by simp
  from t i o reachable_paintedState show ?thesis by (simp add: paintedState_fields)
qed

section \<open>The claims about the colour controls\<close>

lemma regexTest_repeat:
  "regexTest [(item, n)] s \<longleftrightarrow> length s = n \<and> list_all (itemMatches item) s"
proof (induction n arbitrary: s)
  case 0
  then show ?case by auto
next
  case (Suc n)
  then show ?case by (cases s) auto
qed

lemma hexClass_iff:
  "itemMatches (Class [(CHR ''0'', CHR ''9''), (CHR ''A'', CHR ''F''), (CHR ''a'', CHR ''f'')]) d
   \<longleftrightarrow> d \<in> set ''0123456789ABCDEFabcdef''"
  by (cases d) simp

lemma regexTest_hexColorPattern: "regexTest hexColorPattern v \<longleftrightarrow> spec_isHexColor v"
proof (cases v)
  case Nil
  then show ?thesis by (simp add: hexColorPattern_def spec_isHexColor_def)
next
  case (Cons ch ds)
  have "regexTest hexColorPattern (ch # ds) \<longleftrightarrow>
      ch = CHR ''#'' \<and>
      regexTest [(Class [(CHR ''0'', CHR ''9''), (CHR ''A'', CHR ''F''), (CHR ''a'', CHR ''f'')], 6)] ds"
    by (simp add: hexColorPattern_def numeral_eq_Suc)
  also have "\<dots> \<longleftrightarrow> ch = CHR ''#'' \<and> length ds = 6 \<and>
      list_all (\<lambda>d. d \<in> set ''0123456789ABCDEFabcdef'') ds"
    unfolding regexTest_repeat hexClass_iff ..
  finally show ?thesis by (simp add: Cons spec_isHexColor_def)
qed

text \<open>
  C8. The hex field accepts exactly the strings that are \<^verbatim>\<open>#\<close> followed by six
  hexadecimal digits: its regular expression matches them and no other string. An
  accepted string becomes the selected colour and nothing else changes; for any
  other string the handler returns the state it was given. (The component shows no
  message: leaving the state as it is is all it does with a malformed text.)
\<close>

theorem hexInput_accepts_exactly_hex_colours:
  "(regexTest hexColorPattern v \<longleftrightarrow> spec_isHexColor v) \<and>
   (spec_isHexColor v \<longrightarrow> hexInputChange st v = st\<lparr>selectedColor := v\<rparr>) \<and>
   (\<not> spec_isHexColor v \<longrightarrow> hexInputChange st v = st)"
proof (intro conjI impI)
  show "regexTest hexColorPattern v \<longleftrightarrow> spec_isHexColor v"
    by (rule regexTest_hexColorPattern)
next
  assume "spec_isHexColor v"
  then have "regexTest hexColorPattern v" by (simp add: regexTest_hexColorPattern)
  then show "hexInputChange st v = st\<lparr>selectedColor := v\<rparr>"
    by (simp add: hexInputChange_def)
next
  assume "\<not> spec_isHexColor v"
  then have "\<not> regexTest hexColorPattern v" by (simp add: regexTest_hexColorPattern)
  then show "hexInputChange st v = st"
    by (simp add: hexInputChange_def)
qed

theorem hexInput_accepts_exactly_hex_colours_witness:
  "spec_isHexColor ''#FF00aa'' \<and>
   hexInputChange mountedState ''#FF00aa'' = mountedState\<lparr>selectedColor := ''#FF00aa''\<rparr> \<and>
   \<not> spec_isHexColor ''#FF00a'' \<and> hexInputChange mountedState ''#FF00a'' = mountedState \<and>
   \<not> spec_isHexColor ''#FF00ag'' \<and> hexInputChange mountedState ''#FF00ag'' = mountedState \<and>
   \<not> spec_isHexColor ''#FF00aa0'' \<and> hexInputChange mountedState ''#FF00aa0'' = mountedState"
proof -
  have a: "spec_isHexColor ''#FF00aa''" by (simp add: spec_isHexColor_def)
  have b: "\<not> spec_isHexColor ''#FF00a''" by (simp add: spec_isHexColor_def)
  have c: "\<not> spec_isHexColor ''#FF00ag''" by (simp add: spec_isHexColor_def)
  have d: "\<not> spec_isHexColor ''#FF00aa0''" by (simp add: spec_isHexColor_def)
  from a b c d
    hexInput_accepts_exactly_hex_colours [of "''#FF00aa''" mountedState]
    hexInput_accepts_exactly_hex_colours [of "''#FF00a''" mountedState]
    hexInput_accepts_exactly_hex_colours [of "''#FF00ag''" mountedState]
    hexInput_accepts_exactly_hex_colours [of "''#FF00aa0''" mountedState]
  show ?thesis by blast
qed

text \<open>
  C9. The slider goes up to 360. At 360 none of the six tests holds, the three
  channels stay 0 and the colour is \<^verbatim>\<open>#000000\<close>, not the red that hue 0 gives.
\<close>

theorem hueToColor_360_is_black:
  "hueSliderMax = 360 \<and> sextant hueSliderMax = None \<and> hueChannels hueSliderMax = (0, 0, 0) \<and>
   hueToColor hueSliderMax = ''#000000'' \<and>
   selectedColor (hueSliderChange st hueSliderMax) = ''#000000'' \<and>
   sextant 0 = Some Sextant0 \<and> hueToColor 0 = ''#ff0000''"
proof -
  have m: "hueSliderMax = 360" by (simp add: hueSliderMax_def)
  have s: "sextant 360 = None" by (simp add: sextant_def)
  have c: "hueChannels 360 = (0, 0, 0)" by (simp add: hueChannels_def s)
  have b: "hueToColor 360 = ''#000000''" by code_simp
  have s0: "sextant 0 = Some Sextant0" by (simp add: sextant_def)
  have r: "hueToColor 0 = ''#ff0000''" by code_simp
  from m s c b s0 r show ?thesis by (simp add: hueSliderChange_def)
qed

text \<open>
  C1, at the preset colour \<^verbatim>\<open>#FF00FF\<close>. The largest channel is red and green is
  below blue, so \<open>(g - b) / diff\<close> is -1; \<^verbatim>\<open>%\<close> keeps the sign, and the hue is -60,
  where the chroma method gives 300.
\<close>

theorem colorToHue_magenta_is_negative:
  "colorToHue ''#FF00FF'' = Some (- 60) \<and> js_rem (- 1) 6 = - 1 \<and>
   hueSliderValue (st\<lparr>selectedColor := ''#FF00FF''\<rparr>) = Some (- 60) \<and>
   spec_mod (- 1) 6 = 5 \<and> spec_hueOfChannels 1 0 1 = 300"
proof -
  have a: "colorToHue ''#FF00FF'' = Some (- 60)" by code_simp
  have b: "js_rem (- 1) 6 = - 1" by code_simp
  have c: "spec_mod (- 1) 6 = 5" by code_simp
  have d: "spec_hueOfChannels 1 0 1 = 300" by code_simp
  from a b c d show ?thesis by (simp add: hueSliderValue_def)
qed

text \<open>
  C3, at hue 300. The colour of hue 300 is \<^verbatim>\<open>#ff00ff\<close>; its hue is computed as
  -60, not 300; and the colour of hue -60 is \<^verbatim>\<open>#000000\<close>, not \<^verbatim>\<open>#ff00ff\<close>.
\<close>

theorem hue_300_does_not_round_trip:
  "hueToColor 300 = ''#ff00ff'' \<and> colorToHue (hueToColor 300) = Some (- 60) \<and>
   hueToColor (- 60) = ''#000000''"
proof -
  have a: "hueToColor 300 = ''#ff00ff''" by code_simp
  have b: "colorToHue ''#ff00ff'' = Some (- 60)" by code_simp
  have c: "hueToColor (- 60) = ''#000000''" by code_simp
  from a b c show ?thesis by simp
qed

section \<open>The claims about painting a cell\<close>

lemma isGrid_row: "isGrid side cv \<Longrightarrow> n < side \<Longrightarrow> length (cv ! n) = side"
  by (simp add: isGrid_def list_all_length)

lemma isGrid_setCell: "isGrid side cv \<Longrightarrow> isGrid side (setCell cv row col c)"
  by (simp add: isGrid_def list_all_length length_setCell length_nth_setCell)

lemma isGrid_blankCanvas: "isGrid GRID_SIZE blankCanvas"
  by (simp add: isGrid_def blankCanvas_def list_all_length)

lemma isGrid_getCell:
  assumes "isGrid side cv" and "0 \<le> row" and "row < int side" and "0 \<le> col" and "col < int side"
  shows "getCell cv row col = Some (color (cv ! nat row ! nat col))"
proof -
  from assms have "nat row < side" by simp
  with assms(1) have "length (cv ! nat row) = side" by (rule isGrid_row)
  moreover from assms(1) have "length cv = side" by (simp add: isGrid_def)
  ultimately show ?thesis using assms by (simp add: getCell_Some_iff)
qed

lemma isGrid_outside:
  assumes "isGrid side cv" and "\<not> (0 \<le> row \<and> row < int side \<and> 0 \<le> col \<and> col < int side)"
  shows "\<not> (0 \<le> row \<and> row < int (length cv) \<and> 0 \<le> col \<and> col < int (length (cv ! nat row)))"
proof
  assume a: "0 \<le> row \<and> row < int (length cv) \<and> 0 \<le> col \<and> col < int (length (cv ! nat row))"
  from assms(1) have n: "length cv = side" by (simp add: isGrid_def)
  with a have "nat row < side" by auto
  with assms(1) have "length (cv ! nat row) = side" by (rule isGrid_row)
  with a n assms(2) show False by auto
qed

lemma pixel_at_append: "pixel_at h a p \<Longrightarrow> pixel_at (h @ ext) a p"
  by (simp add: pixel_at_def nth_append)

lemma pixels_at_append:
  "list_all2 (pixel_at h) ps r \<Longrightarrow> list_all2 (pixel_at (h @ ext)) ps r"
  by (erule list_all2_mono) (rule pixel_at_append)

lemma row_at_append: "row_at h a r \<Longrightarrow> row_at (h @ ext) a r"
  by (cases "h ! a") (auto simp: row_at_def nth_append pixels_at_append)

lemma rows_at_append:
  "list_all2 (row_at h) rs g \<Longrightarrow> list_all2 (row_at (h @ ext)) rs g"
  by (erule list_all2_mono) (rule row_at_append)

lemma grid_at_append: "grid_at h a g \<Longrightarrow> grid_at (h @ ext) a g"
  by (cases "h ! a") (auto simp: grid_at_def nth_append rows_at_append)

lemma heap_mapPixels_correct:
  assumes "list_all2 (pixel_at h) ps r"
  shows "\<exists>ext qs. heap_mapPixels row col c rowIndex colIndex h ps = (h @ ext, qs) \<and>
     list_all2 (pixel_at (h @ ext)) qs
       (map_from colIndex (\<lambda>pixel ci.
          if int rowIndex = row \<and> int ci = col then \<lparr>color = c\<rparr> else pixel) r)"
  using assms
proof (induction ps arbitrary: r h colIndex)
  case Nil
  then show ?case by simp
next
  case (Cons p ps)
  from Cons.prems obtain x xs where r: "r = x # xs"
    and hyps: "pixel_at h p x" "list_all2 (pixel_at h) ps xs"
    by (auto simp: list_all2_Cons1)
  let ?f = "\<lambda>pixel ci. if int rowIndex = row \<and> int ci = col then \<lparr>color = c\<rparr> else pixel"
  show ?case
  proof (cases "int rowIndex = row \<and> int colIndex = col")
    case True
    let ?h1 = "h @ [PixelObject c]"
    from hyps(2) have "list_all2 (pixel_at ?h1) ps xs"
      by (rule pixels_at_append)
    from Cons.IH [OF this, of "Suc colIndex"]
    obtain ext qs where e: "heap_mapPixels row col c rowIndex (Suc colIndex) ?h1 ps = (?h1 @ ext, qs)"
      and q: "list_all2 (pixel_at (?h1 @ ext)) qs (map_from (Suc colIndex) ?f xs)"
      by blast
    have new: "pixel_at (?h1 @ ext) (length h) \<lparr>color = c\<rparr>"
      by (simp add: pixel_at_def nth_append)
    from True e have "heap_mapPixels row col c rowIndex colIndex h (p # ps) =
        (h @ ([PixelObject c] @ ext), length h # qs)"
      by (simp add: allocate_def)
    moreover from True new q have "list_all2 (pixel_at (h @ ([PixelObject c] @ ext))) (length h # qs)
        (map_from colIndex ?f (x # xs))"
      by simp
    ultimately show ?thesis unfolding r by blast
  next
    case False
    from Cons.IH [OF hyps(2), of "Suc colIndex"]
    obtain ext qs where e: "heap_mapPixels row col c rowIndex (Suc colIndex) h ps = (h @ ext, qs)"
      and q: "list_all2 (pixel_at (h @ ext)) qs (map_from (Suc colIndex) ?f xs)"
      by blast
    from hyps(1) have old: "pixel_at (h @ ext) p x" by (rule pixel_at_append)
    from False e have "heap_mapPixels row col c rowIndex colIndex h (p # ps) = (h @ ext, p # qs)"
      by auto
    moreover from False old q have "list_all2 (pixel_at (h @ ext)) (p # qs)
        (map_from colIndex ?f (x # xs))"
      by auto
    ultimately show ?thesis unfolding r by blast
  qed
qed

lemma heap_mapRows_correct:
  assumes "list_all2 (row_at h) rs g"
  shows "\<exists>ext rs'. heap_mapRows row col c rowIndex h rs = Some (h @ ext, rs') \<and>
     list_all2 (row_at (h @ ext)) rs'
       (map_from rowIndex (\<lambda>r ri. map_indexed (\<lambda>pixel ci.
          if int ri = row \<and> int ci = col then \<lparr>color = c\<rparr> else pixel) r) g)"
  using assms
proof (induction rs arbitrary: g h rowIndex)
  case Nil
  then show ?case by simp
next
  case (Cons a rs)
  from Cons.prems obtain r g' where g: "g = r # g'"
    and hyps: "row_at h a r" "list_all2 (row_at h) rs g'"
    by (auto simp: list_all2_Cons1)
  let ?f = "\<lambda>ri pixel ci. if int ri = row \<and> int ci = col then \<lparr>color = c\<rparr> else pixel"
  from hyps(1) obtain ps where a: "a < length h" "h ! a = ArrayObject ps"
    and ps: "list_all2 (pixel_at h) ps r"
    by (cases "h ! a") (auto simp: row_at_def)
  from heap_mapPixels_correct [OF ps, of row col c rowIndex 0]
  obtain ext1 qs where m: "heap_mapPixels row col c rowIndex 0 h ps = (h @ ext1, qs)"
    and q: "list_all2 (pixel_at (h @ ext1)) qs (map_indexed (?f rowIndex) r)"
    by (auto simp: map_indexed_def)
  let ?h2 = "h @ ext1 @ [ArrayObject qs]"
  let ?r' = "length (h @ ext1)"
  from q have "list_all2 (pixel_at ((h @ ext1) @ [ArrayObject qs])) qs (map_indexed (?f rowIndex) r)"
    by (rule pixels_at_append)
  then have newrow: "row_at ?h2 ?r' (map_indexed (?f rowIndex) r)"
    by (simp add: row_at_def nth_append)
  from hyps(2) have "list_all2 (row_at ?h2) rs g'"
    by (rule rows_at_append)
  from Cons.IH [OF this, of "Suc rowIndex"]
  obtain ext3 rs' where e: "heap_mapRows row col c (Suc rowIndex) ?h2 rs = Some (?h2 @ ext3, rs')"
    and rows: "list_all2 (row_at (?h2 @ ext3)) rs'
        (map_from (Suc rowIndex) (\<lambda>r ri. map_indexed (?f ri) r) g')"
    by blast
  from newrow have newrow': "row_at (?h2 @ ext3) ?r' (map_indexed (?f rowIndex) r)"
    by (rule row_at_append)
  from a m e have "heap_mapRows row col c rowIndex h (a # rs) =
      Some (h @ (ext1 @ [ArrayObject qs] @ ext3), ?r' # rs')"
    by (simp add: at_index_def allocate_def)
  moreover from newrow' rows have "list_all2 (row_at (h @ (ext1 @ [ArrayObject qs] @ ext3))) (?r' # rs')
      (map_from rowIndex (\<lambda>r ri. map_indexed (?f ri) r) (r # g'))"
    by simp
  ultimately show ?case unfolding g by blast
qed

lemma heap_setCell_correct:
  assumes "grid_at h a g"
  shows "\<exists>h' a'. heap_setCell h a row col c = Some (h', a') \<and>
     take (length h) h' = h \<and> grid_at h' a g \<and> grid_at h' a' (setCell g row col c)"
proof -
  from assms obtain rs where a: "a < length h" "h ! a = ArrayObject rs"
    and rs: "list_all2 (row_at h) rs g"
    by (cases "h ! a") (auto simp: grid_at_def)
  from heap_mapRows_correct [OF rs, of row col c 0]
  obtain ext rs' where m: "heap_mapRows row col c 0 h rs = Some (h @ ext, rs')"
    and r: "list_all2 (row_at (h @ ext)) rs' (setCell g row col c)"
    by (auto simp: setCell_def map_indexed_def)
  let ?h' = "h @ ext @ [ArrayObject rs']"
  let ?a' = "length (h @ ext)"
  from a m have s: "heap_setCell h a row col c = Some (?h', ?a')"
    by (simp add: heap_setCell_def at_index_def allocate_def)
  have p: "take (length h) ?h' = h" by simp
  from assms have old: "grid_at ?h' a g" by (rule grid_at_append)
  from r have "list_all2 (row_at ((h @ ext) @ [ArrayObject rs'])) rs' (setCell g row col c)"
    by (rule rows_at_append)
  then have new: "grid_at ?h' ?a' (setCell g row col c)"
    by (simp add: grid_at_def nth_append)
  from s p old new show ?thesis by blast
qed

text \<open>
  C5. On a grid of any side, painting a valid cell (row, col) with colour \<open>c\<close> gives a
  grid of the same side in which that cell reads \<open>c\<close> and every other position reads
  what it read in the input grid. The input grid is not written to: on every store
  in which an address holds the input grid, the paint returns a store that begins
  with the old one, object for object, in which that address still holds the input
  grid and a new address holds the painted one.
\<close>

theorem setCell_sets_one_cell:
  assumes "isGrid side g" and "0 \<le> row" and "row < int side" and "0 \<le> col" and "col < int side"
  shows "getCell (setCell g row col c) row col = Some c \<and>
         (\<forall>r k. (r, k) \<noteq> (row, col) \<longrightarrow> getCell (setCell g row col c) r k = getCell g r k) \<and>
         isGrid side (setCell g row col c) \<and>
         (\<forall>h a. grid_at h a g \<longrightarrow>
            (\<exists>h' a'. heap_setCell h a row col c = Some (h', a') \<and>
               take (length h) h' = h \<and> grid_at h' a g \<and>
               grid_at h' a' (setCell g row col c)))"
proof -
  from assms have "getCell g row col = Some (color (g ! nat row ! nat col))"
    by (rule isGrid_getCell)
  then have a: "getCell (setCell g row col c) row col = Some c"
    by (simp add: getCell_setCell)
  have b: "getCell (setCell g row col c) r k = getCell g r k" if "(r, k) \<noteq> (row, col)" for r k
    using that by (cases "getCell g r k") (auto simp: getCell_setCell)
  from assms(1) have d: "isGrid side (setCell g row col c)" by (rule isGrid_setCell)
  have e: "\<exists>h' a'. heap_setCell h a row col c = Some (h', a') \<and>
      take (length h) h' = h \<and> grid_at h' a g \<and> grid_at h' a' (setCell g row col c)"
    if "grid_at h a g" for h a
    using that by (rule heap_setCell_correct)
  from a b d e show ?thesis by blast
qed

theorem setCell_sets_one_cell_witness:
  "isGrid 2 exampleGrid \<and> (0::int) \<le> 0 \<and> (0::int) < int 2 \<and> (0::int) \<le> 1 \<and> (1::int) < int 2 \<and>
   grid_at exampleHeap 6 exampleGrid \<and>
   getCell (setCell exampleGrid 0 1 ''#FF0000'') 0 1 = Some ''#FF0000'' \<and>
   getCell (setCell exampleGrid 0 1 ''#FF0000'') 0 0 = getCell exampleGrid 0 0 \<and>
   getCell (setCell exampleGrid 0 1 ''#FF0000'') 1 1 = getCell exampleGrid 1 1 \<and>
   isGrid 2 (setCell exampleGrid 0 1 ''#FF0000'') \<and>
   (\<exists>h' a'. heap_setCell exampleHeap 6 0 1 ''#FF0000'' = Some (h', a') \<and>
      take 7 h' = exampleHeap \<and> grid_at h' 6 exampleGrid \<and>
      grid_at h' a' (setCell exampleGrid 0 1 ''#FF0000''))"
proof -
  have g: "isGrid 2 exampleGrid"
    by (simp add: isGrid_def exampleGrid_def numeral_2_eq_2)
  have b: "(0::int) \<le> 0" "(0::int) < int 2" "(0::int) \<le> 1" "(1::int) < int 2" by simp_all
  have px: "pixel_at exampleHeap 0 \<lparr>color = ''#FFFFFF''\<rparr>" "pixel_at exampleHeap 1 \<lparr>color = ''#FFFFFF''\<rparr>"
    "pixel_at exampleHeap 2 \<lparr>color = ''#FFFFFF''\<rparr>" "pixel_at exampleHeap 3 \<lparr>color = ''#FFFFFF''\<rparr>"
    by (simp_all add: pixel_at_def exampleHeap_def)
  from px have rows: "row_at exampleHeap 4 (replicate 2 \<lparr>color = ''#FFFFFF''\<rparr>)"
    "row_at exampleHeap 5 (replicate 2 \<lparr>color = ''#FFFFFF''\<rparr>)"
    by (simp_all add: row_at_def exampleHeap_def numeral_2_eq_2)
  from rows have st: "grid_at exampleHeap 6 exampleGrid"
    by (simp add: grid_at_def exampleHeap_def exampleGrid_def numeral_2_eq_2)
  note t = setCell_sets_one_cell [OF g b, of "''#FF0000''"]
  from t have others: "(r, k) \<noteq> (0, 1) \<longrightarrow>
      getCell (setCell exampleGrid 0 1 ''#FF0000'') r k = getCell exampleGrid r k" for r k
    by blast
  from t have store: "grid_at h a exampleGrid \<longrightarrow>
      (\<exists>h' a'. heap_setCell h a 0 1 ''#FF0000'' = Some (h', a') \<and>
         take (length h) h' = h \<and> grid_at h' a exampleGrid \<and>
         grid_at h' a' (setCell exampleGrid 0 1 ''#FF0000''))" for h a
    by blast
  have n: "length exampleHeap = 7" by (simp add: exampleHeap_def)
  from others [of 0 0] have o1: "getCell (setCell exampleGrid 0 1 ''#FF0000'') 0 0 = getCell exampleGrid 0 0"
    by simp
  from others [of 1 1] have o2: "getCell (setCell exampleGrid 0 1 ''#FF0000'') 1 1 = getCell exampleGrid 1 1"
    by simp
  from store [of exampleHeap 6] st n
  have s: "\<exists>h' a'. heap_setCell exampleHeap 6 0 1 ''#FF0000'' = Some (h', a') \<and>
      take 7 h' = exampleHeap \<and> grid_at h' 6 exampleGrid \<and>
      grid_at h' a' (setCell exampleGrid 0 1 ''#FF0000'')"
    by simp
  from t g b st o1 o2 s show ?thesis by simp
qed

text \<open>
  C6 as stated fails: \<open>drawPixel\<close> has no bounds check. On the mounted component a
  paint at row 32, outside the 32 rows, raises nothing and adds an entry to the
  history.
\<close>

theorem drawPixel_outside_grid_counterexample:
  "length (history (drawPixel mountedState 32 0)) = length (history mountedState) + 1 \<and>
   historyIndex (drawPixel mountedState 32 0) = historyIndex mountedState + 1"
  by (simp add: drawPixel_def Let_def saveToHistory_fields slice0_def mountedState_fields)

text \<open>
  C6 as amended. For a position outside the grid \<open>drawPixel\<close> reports no error: no
  cell matches, so the grid it builds equals the input grid, and that grid is
  committed as a new history entry like any other paint, with the cursor on it.
\<close>

theorem drawPixel_outside_grid_commits_same_grid:
  assumes "isGrid side (canvas st)"
    and "\<not> (0 \<le> row \<and> row < int side \<and> 0 \<le> col \<and> col < int side)"
    and "0 \<le> historyIndex st" and "historyIndex st < int (length (history st))"
  shows "setCell (canvas st) row col (selectedColor st) = canvas st \<and>
         drawPixel st row col = saveToHistory st (canvas st) \<and>
         canvas (drawPixel st row col) = canvas st \<and>
         history (drawPixel st row col) =
           take (nat (historyIndex st) + 1) (history st) @ [canvas st] \<and>
         historyIndex (drawPixel st row col) = historyIndex st + 1"
proof -
  from assms(1,2) have "\<not> (0 \<le> row \<and> row < int (length (canvas st)) \<and> 0 \<le> col \<and>
      col < int (length (canvas st ! nat row)))"
    by (rule isGrid_outside)
  then have same: "setCell (canvas st) row col (selectedColor st) = canvas st"
    by (rule setCell_outside)
  then have d: "drawPixel st row col = saveToHistory st (canvas st)"
    by (simp add: drawPixel_def Let_def)
  from assms(3) have e: "nat (historyIndex st + 1) = nat (historyIndex st) + 1" by simp
  from assms(3,4) have h: "history (saveToHistory st (canvas st)) =
      take (nat (historyIndex st) + 1) (history st) @ [canvas st]"
    by (simp add: saveToHistory_fields slice0_nonneg e)
  from assms(3,4) have i: "historyIndex (saveToHistory st (canvas st)) = historyIndex st + 1"
    by (simp add: saveToHistory_fields slice0_nonneg e)
  from same d h i show ?thesis by (simp add: saveToHistory_fields)
qed

theorem drawPixel_outside_grid_commits_same_grid_witness:
  "isGrid GRID_SIZE (canvas mountedState) \<and> \<not> (32::int) < int GRID_SIZE \<and>
   0 \<le> historyIndex mountedState \<and> historyIndex mountedState < int (length (history mountedState)) \<and>
   canvas (drawPixel mountedState 32 0) = blankCanvas \<and>
   history (drawPixel mountedState 32 0) = [blankCanvas, blankCanvas] \<and>
   historyIndex (drawPixel mountedState 32 0) = 1"
proof -
  have g: "isGrid GRID_SIZE (canvas mountedState)"
    by (simp add: mountedState_fields isGrid_blankCanvas)
  have o: "\<not> (0 \<le> (32::int) \<and> (32::int) < int GRID_SIZE \<and> 0 \<le> (0::int) \<and> (0::int) < int GRID_SIZE)"
    by (simp add: GRID_SIZE_def)
  have a: "0 \<le> historyIndex mountedState"
    and b: "historyIndex mountedState < int (length (history mountedState))"
    by (simp_all add: mountedState_fields)
  from drawPixel_outside_grid_commits_same_grid [OF g o a b] g o a b
  show ?thesis by (simp add: mountedState_fields saveToHistory_fields slice0_def)
qed

section \<open>The claim about the export\<close>

lemma wfCtx_line: "wfCtx W H ctx \<Longrightarrow> y < H \<Longrightarrow> length (bitmap ctx ! y) = W"
  by (simp add: wfCtx_def list_all_length)

lemma wfCtx_createCanvas: "wfCtx w h (createCanvas w h)"
  by (simp add: wfCtx_def createCanvas_def list_all_length)

lemma wfCtx_setFillStyle: "wfCtx W H ctx \<Longrightarrow> wfCtx W H (setFillStyle ctx s)"
  by (simp add: wfCtx_def setFillStyle_def split: option.splits)

lemma bitmap_setFillStyle: "bitmap (setFillStyle ctx s) = bitmap ctx"
  by (simp add: setFillStyle_def split: option.splits)

lemma fillStyle_setFillStyle: "cssHexColor s = Some c \<Longrightarrow> fillStyle (setFillStyle ctx s) = c"
  by (simp add: setFillStyle_def)

lemma wfCtx_fillRect: "wfCtx W H ctx \<Longrightarrow> wfCtx W H (fillRect ctx x y w h)"
  by (simp add: wfCtx_def fillRect_def list_all_length length_map_indexed nth_map_indexed)

lemma nth_fillRect:
  assumes "wfCtx W H ctx" and "py < H" and "px < W"
  shows "bitmap (fillRect ctx x y w h) ! py ! px =
     (if x \<le> px \<and> px < x + w \<and> y \<le> py \<and> py < y + h then Opaque (fillStyle ctx)
      else bitmap ctx ! py ! px)"
proof -
  from assms(1) have n: "length (bitmap ctx) = H" by (simp add: wfCtx_def)
  from assms(1,2) have m: "length (bitmap ctx ! py) = W" by (rule wfCtx_line)
  from n m assms(2,3) show ?thesis
    by (simp add: fillRect_def nth_map_indexed)
qed

lemma wfCtx_paintCell: "wfCtx W H ctx \<Longrightarrow> wfCtx W H (paintCell s ri ctx p ci)"
  by (simp add: paintCell_def wfCtx_fillRect wfCtx_setFillStyle)

lemma nth_paintCell:
  assumes "wfCtx W H ctx" and "py < H" and "px < W" and "cssHexColor (color p) = Some c"
  shows "bitmap (paintCell s ri ctx p ci) ! py ! px =
     (if ci * s \<le> px \<and> px < ci * s + s \<and> ri * s \<le> py \<and> py < ri * s + s then Opaque c
      else bitmap ctx ! py ! px)"
proof -
  from assms(1) have "wfCtx W H (setFillStyle ctx (color p))" by (rule wfCtx_setFillStyle)
  from nth_fillRect [OF this assms(2,3)] assms(4) show ?thesis
    by (simp add: paintCell_def fillStyle_setFillStyle bitmap_setFillStyle)
qed

lemma paint_cells:
  assumes "wfCtx W H ctx" and "list_all (\<lambda>p. cssHexColor (color p) \<noteq> None) row"
  shows "wfCtx W H (forEach_from j (paintCell s ri) ctx row) \<and>
     (\<forall>k<length row. \<forall>py<H. \<forall>px<W.
        ri * s \<le> py \<and> py < ri * s + s \<and> (j + k) * s \<le> px \<and> px < (j + k) * s + s \<longrightarrow>
        Some (bitmap (forEach_from j (paintCell s ri) ctx row) ! py ! px) =
          map_option Opaque (cssHexColor (color (row ! k)))) \<and>
     (\<forall>py<H. \<forall>px<W.
        \<not> (ri * s \<le> py \<and> py < ri * s + s \<and> j * s \<le> px \<and> px < (j + length row) * s) \<longrightarrow>
        bitmap (forEach_from j (paintCell s ri) ctx row) ! py ! px = bitmap ctx ! py ! px)"
  using assms
proof (induction row arbitrary: ctx j)
  case Nil
  then show ?case by simp
next
  case (Cons p ps)
  let ?ctx1 = "paintCell s ri ctx p j"
  let ?res = "forEach_from (Suc j) (paintCell s ri) ?ctx1 ps"
  from Cons.prems obtain c where c: "cssHexColor (color p) = Some c" by auto
  from Cons.prems have ps: "list_all (\<lambda>p. cssHexColor (color p) \<noteq> None) ps" by simp
  from Cons.prems(1) have wf1: "wfCtx W H ?ctx1" by (rule wfCtx_paintCell)
  note ih = Cons.IH [OF wf1 ps, of "Suc j"]
  from ih have wfr: "wfCtx W H ?res" by blast
  from ih have ihA: "\<And>k py px. k < length ps \<Longrightarrow> py < H \<Longrightarrow> px < W \<Longrightarrow>
      ri * s \<le> py \<Longrightarrow> py < ri * s + s \<Longrightarrow> (Suc j + k) * s \<le> px \<Longrightarrow> px < (Suc j + k) * s + s \<Longrightarrow>
      Some (bitmap ?res ! py ! px) = map_option Opaque (cssHexColor (color (ps ! k)))"
    by blast
  from ih have ihB: "\<And>py px. py < H \<Longrightarrow> px < W \<Longrightarrow>
      \<not> (ri * s \<le> py \<and> py < ri * s + s \<and> Suc j * s \<le> px \<and> px < (Suc j + length ps) * s) \<Longrightarrow>
      bitmap ?res ! py ! px = bitmap ?ctx1 ! py ! px"
    by blast
  have step: "\<And>py px. py < H \<Longrightarrow> px < W \<Longrightarrow> bitmap ?ctx1 ! py ! px =
      (if j * s \<le> px \<and> px < j * s + s \<and> ri * s \<le> py \<and> py < ri * s + s then Opaque c
       else bitmap ctx ! py ! px)"
    using nth_paintCell [OF Cons.prems(1) _ _ c] by blast
  have A: "Some (bitmap ?res ! py ! px) = map_option Opaque (cssHexColor (color ((p # ps) ! k)))"
    if "k < length (p # ps)" "py < H" "px < W" "ri * s \<le> py" "py < ri * s + s"
       "(j + k) * s \<le> px" "px < (j + k) * s + s" for k py px
  proof (cases k)
    case 0
    with that have "\<not> (Suc j * s \<le> px)" by simp
    with that have "bitmap ?res ! py ! px = bitmap ?ctx1 ! py ! px" by (intro ihB) auto
    with that 0 c show ?thesis by (simp add: step)
  next
    case (Suc k')
    with that have "k' < length ps" "(Suc j + k') * s \<le> px" "px < (Suc j + k') * s + s" by simp_all
    with that have "Some (bitmap ?res ! py ! px) = map_option Opaque (cssHexColor (color (ps ! k')))"
      by (intro ihA)
    with Suc show ?thesis by simp
  qed
  have B: "bitmap ?res ! py ! px = bitmap ctx ! py ! px"
    if "py < H" "px < W"
       "\<not> (ri * s \<le> py \<and> py < ri * s + s \<and> j * s \<le> px \<and> px < (j + length (p # ps)) * s)" for py px
  proof -
    from that(3) have "\<not> (ri * s \<le> py \<and> py < ri * s + s \<and> Suc j * s \<le> px \<and> px < (Suc j + length ps) * s)"
      by auto
    with that have "bitmap ?res ! py ! px = bitmap ?ctx1 ! py ! px" by (intro ihB)
    moreover from that(3) have "\<not> (j * s \<le> px \<and> px < j * s + s \<and> ri * s \<le> py \<and> py < ri * s + s)"
      by (auto simp: add_mult_distrib)
    ultimately show ?thesis using that by (simp add: step)
  qed
  from wfr A B show ?case by simp
qed


lemma paint_row:
  assumes "wfCtx W H ctx" and "list_all (\<lambda>p. cssHexColor (color p) \<noteq> None) row"
  shows "wfCtx W H (paintRow s ctx row ri)"
    and "\<And>k py px. k < length row \<Longrightarrow> py < H \<Longrightarrow> px < W \<Longrightarrow>
        ri * s \<le> py \<Longrightarrow> py < ri * s + s \<Longrightarrow> k * s \<le> px \<Longrightarrow> px < k * s + s \<Longrightarrow>
        Some (bitmap (paintRow s ctx row ri) ! py ! px) =
          map_option Opaque (cssHexColor (color (row ! k)))"
    and "\<And>py px. py < H \<Longrightarrow> px < W \<Longrightarrow> \<not> (ri * s \<le> py \<and> py < ri * s + s) \<Longrightarrow>
        bitmap (paintRow s ctx row ri) ! py ! px = bitmap ctx ! py ! px"
proof -
  have e: "paintRow s ctx row ri = forEach_from 0 (paintCell s ri) ctx row"
    by (simp add: paintRow_def forEach_def)
  note t = paint_cells [OF assms, of 0 s ri, folded e]
  from t show "wfCtx W H (paintRow s ctx row ri)" by blast
  show "Some (bitmap (paintRow s ctx row ri) ! py ! px) =
      map_option Opaque (cssHexColor (color (row ! k)))"
    if "k < length row" "py < H" "px < W" "ri * s \<le> py" "py < ri * s + s"
      "k * s \<le> px" "px < k * s + s" for k py px
  proof -
    from t have "\<forall>k<length row. \<forall>py<H. \<forall>px<W.
        ri * s \<le> py \<and> py < ri * s + s \<and> (0 + k) * s \<le> px \<and> px < (0 + k) * s + s \<longrightarrow>
        Some (bitmap (paintRow s ctx row ri) ! py ! px) =
          map_option Opaque (cssHexColor (color (row ! k)))"
      by blast
    with that show ?thesis by simp
  qed
  show "bitmap (paintRow s ctx row ri) ! py ! px = bitmap ctx ! py ! px"
    if "py < H" "px < W" "\<not> (ri * s \<le> py \<and> py < ri * s + s)" for py px
  proof -
    from t have "\<forall>py<H. \<forall>px<W.
        \<not> (ri * s \<le> py \<and> py < ri * s + s \<and> 0 * s \<le> px \<and> px < (0 + length row) * s) \<longrightarrow>
        bitmap (paintRow s ctx row ri) ! py ! px = bitmap ctx ! py ! px"
      by blast
    with that show ?thesis by blast
  qed
qed

lemma paint_rows:
  assumes "wfCtx W H ctx" and "list_all (list_all (\<lambda>p. cssHexColor (color p) \<noteq> None)) rows"
  shows "wfCtx W H (forEach_from i (paintRow s) ctx rows) \<and>
     (\<forall>r<length rows. \<forall>k<length (rows ! r). \<forall>py<H. \<forall>px<W.
        (i + r) * s \<le> py \<and> py < (i + r) * s + s \<and> k * s \<le> px \<and> px < k * s + s \<longrightarrow>
        Some (bitmap (forEach_from i (paintRow s) ctx rows) ! py ! px) =
          map_option Opaque (cssHexColor (color (rows ! r ! k)))) \<and>
     (\<forall>py<H. \<forall>px<W.
        \<not> (i * s \<le> py \<and> py < (i + length rows) * s) \<longrightarrow>
        bitmap (forEach_from i (paintRow s) ctx rows) ! py ! px = bitmap ctx ! py ! px)"
  using assms
proof (induction rows arbitrary: ctx i)
  case Nil
  then show ?case by simp
next
  case (Cons row rows)
  let ?ctx1 = "paintRow s ctx row i"
  let ?res = "forEach_from (Suc i) (paintRow s) ?ctx1 rows"
  from Cons.prems have row: "list_all (\<lambda>p. cssHexColor (color p) \<noteq> None) row"
    and rows: "list_all (list_all (\<lambda>p. cssHexColor (color p) \<noteq> None)) rows" by simp_all
  note r1 = paint_row [OF Cons.prems(1) row, where s = s and ri = i]
  note ih = Cons.IH [OF r1(1) rows, of "Suc i"]
  from ih have wfr: "wfCtx W H ?res" by blast
  from ih have ihA: "\<And>r k py px. r < length rows \<Longrightarrow> k < length (rows ! r) \<Longrightarrow> py < H \<Longrightarrow> px < W \<Longrightarrow>
      (Suc i + r) * s \<le> py \<Longrightarrow> py < (Suc i + r) * s + s \<Longrightarrow> k * s \<le> px \<Longrightarrow> px < k * s + s \<Longrightarrow>
      Some (bitmap ?res ! py ! px) = map_option Opaque (cssHexColor (color (rows ! r ! k)))"
    by blast
  from ih have ihB: "\<And>py px. py < H \<Longrightarrow> px < W \<Longrightarrow>
      \<not> (Suc i * s \<le> py \<and> py < (Suc i + length rows) * s) \<Longrightarrow>
      bitmap ?res ! py ! px = bitmap ?ctx1 ! py ! px"
    by blast
  have A: "Some (bitmap ?res ! py ! px) = map_option Opaque (cssHexColor (color ((row # rows) ! r ! k)))"
    if "r < length (row # rows)" "k < length ((row # rows) ! r)" "py < H" "px < W"
       "(i + r) * s \<le> py" "py < (i + r) * s + s" "k * s \<le> px" "px < k * s + s" for r k py px
  proof (cases r)
    case 0
    with that have "\<not> (Suc i * s \<le> py \<and> py < (Suc i + length rows) * s)" by simp
    with that have "bitmap ?res ! py ! px = bitmap ?ctx1 ! py ! px" by (intro ihB)
    moreover have "Some (bitmap ?ctx1 ! py ! px) =
        map_option Opaque (cssHexColor (color (row ! k)))"
    proof (rule r1(2))
      from that 0 show "k < length row" by simp
      from that 0 show "i * s \<le> py" by simp
      from that 0 show "py < i * s + s" by simp
    qed (use that in simp_all)
    ultimately show ?thesis using 0 by simp
  next
    case (Suc r')
    with that have "r' < length rows" "k < length (rows ! r')"
      "(Suc i + r') * s \<le> py" "py < (Suc i + r') * s + s" by simp_all
    with that have "Some (bitmap ?res ! py ! px) =
        map_option Opaque (cssHexColor (color (rows ! r' ! k)))"
      by (intro ihA)
    with Suc show ?thesis by simp
  qed
  have B: "bitmap ?res ! py ! px = bitmap ctx ! py ! px"
    if "py < H" "px < W" "\<not> (i * s \<le> py \<and> py < (i + length (row # rows)) * s)" for py px
  proof -
    from that(3) have "\<not> (Suc i * s \<le> py \<and> py < (Suc i + length rows) * s)" by auto
    with that have "bitmap ?res ! py ! px = bitmap ?ctx1 ! py ! px" by (intro ihB)
    moreover from that(3) have "\<not> (i * s \<le> py \<and> py < i * s + s)"
      by (auto simp: add_mult_distrib)
    with that have "bitmap ?ctx1 ! py ! px = bitmap ctx ! py ! px" by (intro r1(3))
    ultimately show ?thesis by simp
  qed
  from wfr A B show ?case by simp
qed

lemma cssHexColor_valid: "regexTest hexColorPattern s \<Longrightarrow> cssHexColor s \<noteq> None"
  by (simp add: cssHexColor_def)

lemma coloursValid_css:
  "coloursValid cv \<Longrightarrow> list_all (list_all (\<lambda>p. cssHexColor (color p) \<noteq> None)) cv"
  unfolding coloursValid_def list_all_iff by (auto simp: cssHexColor_def)

lemma downloadImage_blocks:
  assumes "isGrid GRID_SIZE (canvas st)" and "coloursValid (canvas st)"
  shows "\<exists>ctx. downloadImage True st format s = Some ctx \<and>
     wfCtx (GRID_SIZE * s) (GRID_SIZE * s) ctx \<and>
     (\<forall>r<GRID_SIZE. \<forall>k<GRID_SIZE. \<forall>py px.
        r * s \<le> py \<and> py < (r + 1) * s \<and> k * s \<le> px \<and> px < (k + 1) * s \<longrightarrow>
        Some (bitmap ctx ! py ! px) =
          map_option Opaque (cssHexColor (color (canvas st ! r ! k))))"
proof -
  let ?N = "GRID_SIZE * s"
  let ?ctx0 = "createCanvas ?N ?N"
  let ?ctx1 = "if format = jpeg
      then fillRect (setFillStyle ?ctx0 ''#FFFFFF'') 0 0 (width ?ctx0) (height ?ctx0) else ?ctx0"
  let ?res = "forEach_from 0 (paintRow s) ?ctx1 (canvas st)"
  have wf1: "wfCtx ?N ?N ?ctx1"
    by (simp add: wfCtx_createCanvas wfCtx_fillRect wfCtx_setFillStyle)
  note t = paint_rows [OF wf1 coloursValid_css [OF assms(2)], of 0 s]
  have d: "downloadImage True st format s = Some ?res"
    by (simp add: downloadImage_def Let_def forEach_def)
  from t have wfr: "wfCtx ?N ?N ?res" by blast
  from assms(1) have len: "length (canvas st) = GRID_SIZE" by (simp add: isGrid_def)
  have blocks: "Some (bitmap ?res ! py ! px) =
      map_option Opaque (cssHexColor (color (canvas st ! r ! k)))"
    if "r < GRID_SIZE" "k < GRID_SIZE" "r * s \<le> py \<and> py < (r + 1) * s \<and> k * s \<le> px \<and> px < (k + 1) * s"
    for r k py px
  proof -
    from assms(1) that(1) have lr: "length (canvas st ! r) = GRID_SIZE" by (rule isGrid_row)
    from that(1) have "(r + 1) * s \<le> ?N" by (intro mult_le_mono1) simp
    with that(3) have py: "py < ?N" by simp
    from that(2) have "(k + 1) * s \<le> ?N" by (intro mult_le_mono1) simp
    with that(3) have px: "px < ?N" by simp
    from t have "\<And>r k py px. r < length (canvas st) \<Longrightarrow> k < length (canvas st ! r) \<Longrightarrow>
        py < ?N \<Longrightarrow> px < ?N \<Longrightarrow>
        (0 + r) * s \<le> py \<and> py < (0 + r) * s + s \<and> k * s \<le> px \<and> px < k * s + s \<Longrightarrow>
        Some (bitmap ?res ! py ! px) = map_option Opaque (cssHexColor (color (canvas st ! r ! k)))"
      by blast
    from this [of r k py px] that len lr py px show ?thesis by simp
  qed
  from d wfr blocks show ?thesis by blast
qed


lemma downloadImage_pixels:
  assumes "isGrid GRID_SIZE (canvas st)" and "coloursValid (canvas st)"
    and "downloadImage True st format s = Some ctx"
    and "py < GRID_SIZE * s" and "px < GRID_SIZE * s"
  shows "Some (bitmap ctx ! py ! px) =
     map_option Opaque (cssHexColor (color (canvas st ! (py div s) ! (px div s))))"
proof -
  from assms(4) have s: "0 < s" by (cases s) simp_all
  from assms(4) have r: "py div s < GRID_SIZE" by (simp add: less_mult_imp_div_less)
  from assms(5) have k: "px div s < GRID_SIZE" by (simp add: less_mult_imp_div_less)
  have "py div s * s \<le> py" "px div s * s \<le> px" by simp_all
  moreover from s have "py < (py div s + 1) * s" "px < (px div s + 1) * s"
    by (simp_all add: dividend_less_div_times)
  moreover from downloadImage_blocks [OF assms(1,2), of format s] assms(3)
  have "\<forall>r<GRID_SIZE. \<forall>k<GRID_SIZE. \<forall>py px.
        r * s \<le> py \<and> py < (r + 1) * s \<and> k * s \<le> px \<and> px < (k + 1) * s \<longrightarrow>
        Some (bitmap ctx ! py ! px) =
          map_option Opaque (cssHexColor (color (canvas st ! r ! k)))"
    by auto
  ultimately show ?thesis using r k by blast
qed

lemma coloursValid_blankCanvas: "coloursValid blankCanvas"
proof -
  have "regexTest hexColorPattern ''#FFFFFF''" by code_simp
  then show ?thesis by (simp add: coloursValid_def blankCanvas_def list_all_length)
qed

lemma coloursValid_setCell:
  assumes "coloursValid cv" and "regexTest hexColorPattern c"
  shows "coloursValid (setCell cv row col c)"
  unfolding coloursValid_def list_all_length
proof (intro allI impI)
  fix n k
  assume n: "n < length (setCell cv row col c)" and k: "k < length (setCell cv row col c ! n)"
  from n have n': "n < length cv" by (simp add: length_setCell)
  with k have k': "k < length (cv ! n)" by (simp add: length_nth_setCell)
  from assms(1) n' k' have "regexTest hexColorPattern (color (cv ! n ! k))"
    by (simp add: coloursValid_def list_all_length)
  with assms(2) n' k' show "regexTest hexColorPattern (color (setCell cv row col c ! n ! k))"
    by (simp add: nth_nth_setCell)
qed

lemma redPixelGrid_cell:
  assumes "r < GRID_SIZE" and "k < GRID_SIZE"
  shows "color (setCell blankCanvas 0 0 ''#FF0000'' ! r ! k) =
     (if r = 0 \<and> k = 0 then ''#FF0000'' else ''#FFFFFF'')"
proof -
  from assms have "r < length blankCanvas" "k < length (blankCanvas ! r)"
    "blankCanvas ! r ! k = \<lparr>color = ''#FFFFFF''\<rparr>"
    by (simp_all add: blankCanvas_def)
  then show ?thesis by (simp add: nth_nth_setCell)
qed

lemma cssHexColor_red: "cssHexColor ''#FF0000'' = Some (255, 0, 0)"
  by code_simp

lemma cssHexColor_white: "cssHexColor ''#FFFFFF'' = Some (255, 255, 255)"
  by code_simp

text \<open>
  C7. For every grid of side \<open>GRID_SIZE\<close> (32, the only side the component has) whose
  cells hold colours, and every scale \<open>s\<close>, \<open>downloadImage\<close> hands over a bitmap of
  \<open>GRID_SIZE * s\<close> lines of \<open>GRID_SIZE * s\<close> pixels in which every pixel of the block
  of lines \<open>r * s\<close> up to \<open>(r + 1) * s\<close> and columns \<open>k * s\<close> up to \<open>(k + 1) * s\<close> has
  the colour of cell \<open>(r, k)\<close>, for PNG and for JPEG alike. For the grid whose only
  cell that is not white is (0,0) = \<^verbatim>\<open>#FF0000\<close>, at scale 10, the bitmap is 320 by 320,
  red on the first 10 lines and columns and white everywhere else.
\<close>

theorem downloadImage_renders_blocks:
  "(isGrid GRID_SIZE (canvas st) \<and> coloursValid (canvas st) \<longrightarrow>
      (\<exists>ctx. downloadImage True st format s = Some ctx \<and>
         width ctx = GRID_SIZE * s \<and> height ctx = GRID_SIZE * s \<and>
         length (bitmap ctx) = GRID_SIZE * s \<and>
         list_all (\<lambda>line. length line = GRID_SIZE * s) (bitmap ctx) \<and>
         (\<forall>r<GRID_SIZE. \<forall>k<GRID_SIZE. \<forall>py px.
            r * s \<le> py \<and> py < (r + 1) * s \<and> k * s \<le> px \<and> px < (k + 1) * s \<longrightarrow>
            Some (bitmap ctx ! py ! px) =
              map_option Opaque (cssHexColor (color (canvas st ! r ! k)))))) \<and>
   (canvas st = setCell blankCanvas 0 0 ''#FF0000'' \<longrightarrow>
      (\<exists>ctx. downloadImage True st format 10 = Some ctx \<and>
         width ctx = 320 \<and> height ctx = 320 \<and> length (bitmap ctx) = 320 \<and>
         list_all (\<lambda>line. length line = 320) (bitmap ctx) \<and>
         (\<forall>py<320. \<forall>px<320. bitmap ctx ! py ! px =
            (if py < 10 \<and> px < 10 then Opaque (255, 0, 0) else Opaque (255, 255, 255)))))"
proof (intro conjI impI)
  assume "isGrid GRID_SIZE (canvas st) \<and> coloursValid (canvas st)"
  then have g: "isGrid GRID_SIZE (canvas st)" and v: "coloursValid (canvas st)" by simp_all
  from downloadImage_blocks [OF g v, of format s]
  show "\<exists>ctx. downloadImage True st format s = Some ctx \<and>
         width ctx = GRID_SIZE * s \<and> height ctx = GRID_SIZE * s \<and>
         length (bitmap ctx) = GRID_SIZE * s \<and>
         list_all (\<lambda>line. length line = GRID_SIZE * s) (bitmap ctx) \<and>
         (\<forall>r<GRID_SIZE. \<forall>k<GRID_SIZE. \<forall>py px.
            r * s \<le> py \<and> py < (r + 1) * s \<and> k * s \<le> px \<and> px < (k + 1) * s \<longrightarrow>
            Some (bitmap ctx ! py ! px) =
              map_option Opaque (cssHexColor (color (canvas st ! r ! k))))"
    by (auto simp: wfCtx_def)
next
  assume c: "canvas st = setCell blankCanvas 0 0 ''#FF0000''"
  have g: "isGrid GRID_SIZE (canvas st)"
    by (simp add: c isGrid_setCell isGrid_blankCanvas)
  have "regexTest hexColorPattern ''#FF0000''" by code_simp
  then have v: "coloursValid (canvas st)"
    by (simp add: c coloursValid_setCell coloursValid_blankCanvas)
  have n: "GRID_SIZE * 10 = 320" by (simp add: GRID_SIZE_def)
  from downloadImage_blocks [OF g v, of format 10]
  obtain ctx where d: "downloadImage True st format 10 = Some ctx"
    and wf: "wfCtx 320 320 ctx" by (auto simp: n)
  have "bitmap ctx ! py ! px =
      (if py < 10 \<and> px < 10 then Opaque (255, 0, 0) else Opaque (255, 255, 255))"
    if "py < 320" "px < 320" for py px
  proof -
    from that have r: "py div 10 < GRID_SIZE" and k: "px div 10 < GRID_SIZE"
      by (simp_all add: GRID_SIZE_def)
    from that have "Some (bitmap ctx ! py ! px) =
        map_option Opaque (cssHexColor (color (canvas st ! (py div 10) ! (px div 10))))"
      by (intro downloadImage_pixels [OF g v d]) (simp_all add: n)
    also have "color (canvas st ! (py div 10) ! (px div 10)) =
        (if py div 10 = 0 \<and> px div 10 = 0 then ''#FF0000'' else ''#FFFFFF'')"
      unfolding c using r k by (rule redPixelGrid_cell)
    also have "py div 10 = 0 \<and> px div 10 = 0 \<longleftrightarrow> py < 10 \<and> px < 10" by auto
    finally show ?thesis by (simp add: cssHexColor_red cssHexColor_white split: if_splits)
  qed
  with d wf show "\<exists>ctx. downloadImage True st format 10 = Some ctx \<and>
         width ctx = 320 \<and> height ctx = 320 \<and> length (bitmap ctx) = 320 \<and>
         list_all (\<lambda>line. length line = 320) (bitmap ctx) \<and>
         (\<forall>py<320. \<forall>px<320. bitmap ctx ! py ! px =
            (if py < 10 \<and> px < 10 then Opaque (255, 0, 0) else Opaque (255, 255, 255)))"
    by (auto simp: wfCtx_def)
qed

theorem downloadImage_renders_blocks_witness:
  "isGrid GRID_SIZE (canvas paintedState) \<and> coloursValid (canvas paintedState) \<and>
   (\<exists>ctx. downloadImage True paintedState png 10 = Some ctx \<and>
      width ctx = 320 \<and> height ctx = 320 \<and>
      bitmap ctx ! 0 ! 0 = Opaque (255, 0, 0) \<and> bitmap ctx ! 9 ! 9 = Opaque (255, 0, 0) \<and>
      bitmap ctx ! 0 ! 10 = Opaque (255, 255, 255) \<and> bitmap ctx ! 10 ! 0 = Opaque (255, 255, 255) \<and>
      bitmap ctx ! 319 ! 319 = Opaque (255, 255, 255))"
proof -
  have c: "canvas paintedState = setCell blankCanvas 0 0 ''#FF0000''"
    by (simp add: paintedState_fields)
  have g: "isGrid GRID_SIZE (canvas paintedState)"
    by (simp add: c isGrid_setCell isGrid_blankCanvas)
  have "regexTest hexColorPattern ''#FF0000''" by code_simp
  then have v: "coloursValid (canvas paintedState)"
    by (simp add: c coloursValid_setCell coloursValid_blankCanvas)
  from downloadImage_renders_blocks [of paintedState png 10] c
  obtain ctx where d: "downloadImage True paintedState png 10 = Some ctx"
    and w: "width ctx = 320" "height ctx = 320"
    and p: "\<forall>py<320. \<forall>px<320. bitmap ctx ! py ! px =
            (if py < 10 \<and> px < 10 then Opaque (255, 0, 0) else Opaque (255, 255, 255))"
    by blast
  from p have "bitmap ctx ! 0 ! 0 = Opaque (255, 0, 0)" "bitmap ctx ! 9 ! 9 = Opaque (255, 0, 0)"
    "bitmap ctx ! 0 ! 10 = Opaque (255, 255, 255)" "bitmap ctx ! 10 ! 0 = Opaque (255, 255, 255)"
    "bitmap ctx ! 319 ! 319 = Opaque (255, 255, 255)"
    by simp_all
  with g v d w show ?thesis by simp
qed

end
